theory Spec2Isabelle
  imports Main "HOL-Library.AList" "HOL-Library.Sublist"
begin

section \<open>JavaScript values as the module sees them\<close>

text \<open>
  The module \<^verbatim>\<open>src/api/newsapi.js\<close> works on plain data: the environment object, the
  parsed JSON body and the values a collaborator may throw. A string is the list of its
  code units (code units below 256, so \<^typ>\<open>char\<close> holds one). A number is carried as
  the text \<^verbatim>\<open>ToString\<close> gives it: the module only converts a number to a string, tests
  whether it is falsy or compares it with 0, and \<^verbatim>\<open>ToString\<close> gives \<^verbatim>\<open>0\<close> for both
  zeros. An object is the list of its own properties in insertion order.
\<close>

datatype jsval =
    JUndefined
  | JNull
  | JBool bool
  | JNum string
  | JStr string
  | JArr "jsval list"
  | JObj "(string \<times> jsval) list"

text \<open>
  What a \<^verbatim>\<open>catch\<close> clause can receive: a \<^verbatim>\<open>TypeError\<close> object with its message (the
  engine raises one when a property of \<^verbatim>\<open>undefined\<close> or \<^verbatim>\<open>null\<close> is read or a value that
  is not a function is called; the messages are worded as V8 words them, and no property
  below depends on the wording), or whatever value a collaborator (\<^verbatim>\<open>fetch\<close>,
  \<^verbatim>\<open>response.json()\<close>) threw or rejected with. An \<^verbatim>\<open>Error\<close> object a collaborator
  throws is an object with a \<^verbatim>\<open>message\<close> property.
\<close>

datatype thrown = TypeError string | Thrown jsval

definition nullish :: "jsval \<Rightarrow> bool" where
  "nullish v = (v = JUndefined \<or> v = JNull)"

text \<open>ToBoolean.\<close>

fun truthy :: "jsval \<Rightarrow> bool" where
  "truthy JUndefined = False"
| "truthy JNull = False"
| "truthy (JBool b) = b"
| "truthy (JNum t) = (t \<noteq> ''0'' \<and> t \<noteq> ''NaN'')"
| "truthy (JStr s) = (s \<noteq> [])"
| "truthy (JArr xs) = True"
| "truthy (JObj kvs) = True"

text \<open>Decimal text of a natural number, as \<^verbatim>\<open>ToString\<close> prints an array length or a status.\<close>

fun dec :: "nat \<Rightarrow> string" where
  "dec n = (if n < 10 then [''0123456789'' ! n]
            else dec (n div 10) @ [''0123456789'' ! (n mod 10)])"

declare dec.simps [simp del]

definition quoted :: "string \<Rightarrow> string" where
  "quoted p = [CHR 0x27] @ p @ [CHR 0x27]"

text \<open>
  Reading property \<open>p\<close> of a value, for the names this module reads
  (\<^verbatim>\<open>NEWSAPI_KEY\<close>, \<^verbatim>\<open>articles\<close>, \<^verbatim>\<open>length\<close>, \<^verbatim>\<open>title\<close>, \<^verbatim>\<open>description\<close>,
  \<^verbatim>\<open>source\<close>, \<^verbatim>\<open>name\<close>, \<^verbatim>\<open>publishedAt\<close>, \<^verbatim>\<open>url\<close>, \<^verbatim>\<open>message\<close>): reading from
  \<^verbatim>\<open>undefined\<close> or \<^verbatim>\<open>null\<close> raises a TypeError; an object gives its own property or
  \<^verbatim>\<open>undefined\<close>; strings and arrays have a \<^verbatim>\<open>length\<close>; none of the other names is
  defined on a built-in prototype of plain data.
\<close>

fun getProp :: "jsval \<Rightarrow> string \<Rightarrow> thrown + jsval" where
  "getProp JUndefined p =
     Inl (TypeError (''Cannot read properties of undefined (reading '' @ quoted p @ '')''))"
| "getProp JNull p =
     Inl (TypeError (''Cannot read properties of null (reading '' @ quoted p @ '')''))"
| "getProp (JObj kvs) p = Inr (case map_of kvs p of None \<Rightarrow> JUndefined | Some v \<Rightarrow> v)"
| "getProp (JStr s) p = Inr (if p = ''length'' then JNum (dec (length s)) else JUndefined)"
| "getProp (JArr xs) p = Inr (if p = ''length'' then JNum (dec (length xs)) else JUndefined)"
| "getProp (JBool b) p = Inr JUndefined"
| "getProp (JNum t) p = Inr JUndefined"

text \<open>Joining the texts of an array's elements with commas; the first fault wins.\<close>

fun join_results :: "(thrown + string) list \<Rightarrow> thrown + string" where
  "join_results [] = Inr []"
| "join_results [r] = r"
| "join_results (r # rs) =
     (case r of Inl e \<Rightarrow> Inl e
      | Inr s \<Rightarrow> (case join_results rs of Inl e \<Rightarrow> Inl e | Inr t \<Rightarrow> Inr (s @ '','' @ t)))"

text \<open>
  ToString, as string concatenation applies it. An array is joined
  (\<^verbatim>\<open>undefined\<close> and \<^verbatim>\<open>null\<close> elements give the empty text); a plain object prints as
  \<^verbatim>\<open>[object Object]\<close> unless it has an own property \<^verbatim>\<open>toString\<close>, which in plain data
  is not callable and leaves no way to a primitive.
\<close>

fun toStr :: "jsval \<Rightarrow> thrown + string" where
  "toStr JUndefined = Inr ''undefined''"
| "toStr JNull = Inr ''null''"
| "toStr (JBool b) = Inr (if b then ''true'' else ''false'')"
| "toStr (JNum t) = Inr t"
| "toStr (JStr s) = Inr s"
| "toStr (JArr xs) =
     join_results (map (\<lambda>x. if x = JUndefined \<or> x = JNull then Inr [] else toStr x) xs)"
| "toStr (JObj kvs) =
     (if ''toString'' \<in> fst ` set kvs
      then Inl (TypeError ''Cannot convert object to primitive value'')
      else Inr ''[object Object]'')"

text \<open>
  \<^verbatim>\<open>String.prototype.toLowerCase\<close> on code units below 256: the letters A to Z and the
  capital letters of the Latin-1 block (0xC0 to 0xDE without the multiplication sign
  0xD7) move up by 32; every other code unit stays.
\<close>

definition lower_char :: "char \<Rightarrow> char" where
  "lower_char c =
     (let n = (of_char c :: nat)
      in if (65 \<le> n \<and> n \<le> 90) \<or> (192 \<le> n \<and> n \<le> 222 \<and> n \<noteq> 215)
         then char_of (n + 32) else c)"

definition toLowerCase :: "string \<Rightarrow> string" where
  "toLowerCase s = map lower_char s"

text \<open>\<^verbatim>\<open>text.includes(kw)\<close>: \<open>kw\<close> occurs in \<open>text\<close> as a contiguous run.\<close>

fun includes_str :: "string \<Rightarrow> string \<Rightarrow> bool" where
  "includes_str [] kw = (kw = [])"
| "includes_str (c # cs) kw = (prefix kw (c # cs) \<or> includes_str cs kw)"

section \<open>extractThemes\<close>

definition themeKeywords :: "(string \<times> string list) list" where
  "themeKeywords =
     [(''monetary_policy'',
        [''fed'', ''federal reserve'', ''powell'', ''interest rates'', ''hawkish'', ''dovish'',
         ''policy'']),
      (''inflation'', [''inflation'', ''cpi'', ''prices'', ''pce'', ''deflation'']),
      (''growth'', [''gdp'', ''growth'', ''recession'', ''expansion'', ''contraction'']),
      (''employment'', [''jobs'', ''unemployment'', ''payrolls'', ''labor'', ''wages'']),
      (''markets'', [''stocks'', ''equities'', ''bonds'', ''yields'', ''volatility''])]"

text \<open>
  \<^verbatim>\<open>themeCounts\<close> is an object used as a dictionary: its entries are kept in the order
  in which the keys were first written, which is the order \<^verbatim>\<open>Object.entries\<close> lists them
  in. \<^const>\<open>AList.update\<close> overwrites a key in place and appends a new one.
\<close>

type_synonym counts = "(string \<times> nat) list"

text \<open>\<^verbatim>\<open>const text = (article.title + ' ' + (article.description || '')).toLowerCase()\<close>\<close>

definition searchText :: "jsval \<Rightarrow> thrown + string" where
  "searchText article =
     (case getProp article ''title'' of Inl e \<Rightarrow> Inl e
      | Inr title \<Rightarrow>
     (case toStr title of Inl e \<Rightarrow> Inl e
      | Inr t \<Rightarrow>
     (case getProp article ''description'' of Inl e \<Rightarrow> Inl e
      | Inr description \<Rightarrow>
     (case toStr (if truthy description then description else JStr '''') of Inl e \<Rightarrow> Inl e
      | Inr d \<Rightarrow> Inr (toLowerCase (t @ '' '' @ d))))))"

text \<open>
  The inner \<^verbatim>\<open>forEach\<close> over \<^verbatim>\<open>Object.entries(themeKeywords)\<close>, one step:
  \<^verbatim>\<open>if (keywords.some(kw => text.includes(kw))) themeCounts[theme] = (themeCounts[theme] || 0) + 1\<close>
\<close>

definition countTheme :: "string \<Rightarrow> string \<times> string list \<Rightarrow> counts \<Rightarrow> counts" where
  "countTheme text entry themeCounts =
     (case entry of (theme, keywords) \<Rightarrow>
        if list_ex (\<lambda>kw. includes_str text kw) keywords
        then AList.update theme
               ((case map_of themeCounts theme of None \<Rightarrow> 0 | Some c \<Rightarrow> c) + 1) themeCounts
        else themeCounts)"

definition countThemes :: "string \<Rightarrow> counts \<Rightarrow> counts" where
  "countThemes text themeCounts = fold (countTheme text) themeKeywords themeCounts"

text \<open>The outer \<^verbatim>\<open>forEach\<close> over the articles; a fault in an article ends the loop.\<close>

fun forEachArticle :: "jsval list \<Rightarrow> counts \<Rightarrow> thrown + counts" where
  "forEachArticle [] themeCounts = Inr themeCounts"
| "forEachArticle (article # rest) themeCounts =
     (case searchText article of Inl e \<Rightarrow> Inl e
      | Inr text \<Rightarrow> forEachArticle rest (countThemes text themeCounts))"

text \<open>
  \<^verbatim>\<open>Object.entries(themeCounts).sort((a, b) => b[1] - a[1]).slice(0, 3).map(([theme, count]) => theme)\<close>.
  \<^verbatim>\<open>Array.prototype.sort\<close> is stable, and so is \<^const>\<open>sort_key\<close>; the comparator puts
  the larger count first.
\<close>

definition topThemes :: "counts \<Rightarrow> string list" where
  "topThemes themeCounts = map fst (take 3 (sort_key (\<lambda>(theme, count). - int count) themeCounts))"

text \<open>
  \<^verbatim>\<open>extractThemes(articles)\<close>. Only an array has \<^verbatim>\<open>forEach\<close>; on any other value the
  call of \<^verbatim>\<open>articles.forEach\<close> raises a TypeError.
\<close>

fun extractThemes :: "jsval \<Rightarrow> thrown + string list" where
  "extractThemes (JArr articles) =
     (case forEachArticle articles [] of Inl e \<Rightarrow> Inl e
      | Inr themeCounts \<Rightarrow> Inr (topThemes themeCounts))"
| "extractThemes articles =
     (case getProp articles ''forEach'' of Inl e \<Rightarrow> Inl e
      | Inr f \<Rightarrow> Inl (TypeError ''articles.forEach is not a function''))"

section \<open>structureNewsData\<close>

record headline =
  title :: jsval
  source :: jsval
  publishedAt :: jsval
  url :: jsval

record summary =
  articleCount :: nat
  themes :: "string list"
  headlines :: "headline list"
  timestamp :: string

text \<open>
  \<^verbatim>\<open>rawData.articles.slice(0, 10)\<close>: arrays and strings have \<^verbatim>\<open>slice\<close>; on any other
  value that can get here the property is \<^verbatim>\<open>undefined\<close> or a datum, and calling it
  raises a TypeError.
\<close>

fun slice_0_10 :: "jsval \<Rightarrow> thrown + jsval" where
  "slice_0_10 (JArr xs) = Inr (JArr (take 10 xs))"
| "slice_0_10 (JStr s) = Inr (JStr (take 10 s))"
| "slice_0_10 v =
     (case getProp v ''slice'' of Inl e \<Rightarrow> Inl e
      | Inr f \<Rightarrow> Inl (TypeError ''rawData.articles.slice is not a function''))"

text \<open>
  The arrow function of \<^verbatim>\<open>articles.map\<close>:
  \<^verbatim>\<open>a => ({title: a.title, source: a.source.name, publishedAt: a.publishedAt, url: a.url})\<close>
\<close>

definition toHeadline :: "jsval \<Rightarrow> thrown + headline" where
  "toHeadline a =
     (case getProp a ''title'' of Inl e \<Rightarrow> Inl e
      | Inr t \<Rightarrow>
     (case getProp a ''source'' of Inl e \<Rightarrow> Inl e
      | Inr src \<Rightarrow>
     (case getProp src ''name'' of Inl e \<Rightarrow> Inl e
      | Inr n \<Rightarrow>
     (case getProp a ''publishedAt'' of Inl e \<Rightarrow> Inl e
      | Inr p \<Rightarrow>
     (case getProp a ''url'' of Inl e \<Rightarrow> Inl e
      | Inr u \<Rightarrow> Inr \<lparr>title = t, source = n, publishedAt = p, url = u\<rparr>)))))"

fun mapHeadlines :: "jsval list \<Rightarrow> thrown + headline list" where
  "mapHeadlines [] = Inr []"
| "mapHeadlines (a # rest) =
     (case toHeadline a of Inl e \<Rightarrow> Inl e
      | Inr h \<Rightarrow> (case mapHeadlines rest of Inl e \<Rightarrow> Inl e | Inr hs \<Rightarrow> Inr (h # hs)))"

text \<open>
  \<^verbatim>\<open>structureNewsData(rawData)\<close>; \<open>now\<close> is what \<^verbatim>\<open>new Date().toISOString()\<close> gives when
  the summary is built. \<open>None\<close> is the \<^verbatim>\<open>null\<close> the function returns. After
  \<^verbatim>\<open>extractThemes\<close> has returned, \<^verbatim>\<open>articles\<close> is an array.
\<close>

definition structureNewsData :: "string \<Rightarrow> jsval \<Rightarrow> thrown + summary option" where
  "structureNewsData now rawData =
     (case getProp rawData ''articles'' of Inl e \<Rightarrow> Inl e
      | Inr all_articles \<Rightarrow>
        if \<not> truthy all_articles then Inr None
        else
     (case getProp all_articles ''length'' of Inl e \<Rightarrow> Inl e
      | Inr len \<Rightarrow>
        if len = JNum ''0'' then Inr None
        else
     (case slice_0_10 all_articles of Inl e \<Rightarrow> Inl e
      | Inr articles \<Rightarrow>
     (case extractThemes articles of Inl e \<Rightarrow> Inl e
      | Inr ths \<Rightarrow>
     (case articles of
        JArr as \<Rightarrow>
          (case mapHeadlines as of Inl e \<Rightarrow> Inl e
           | Inr recentHeadlines \<Rightarrow>
               Inr (Some \<lparr>articleCount = length as, themes = ths,
                          headlines = recentHeadlines, timestamp = now\<rparr>))
      | _ \<Rightarrow> Inl (TypeError ''articles.map is not a function''))))))"

section \<open>fetchNewsSentiment\<close>

text \<open>
  The request: \<^verbatim>\<open>fetch\<close> is called with the endpoint, a question mark and the
  serialisation \<^verbatim>\<open>URLSearchParams\<close> gives these parameters, in this order.
\<close>

record request =
  endpoint :: string
  params :: "(string \<times> string) list"

definition newsRequest :: "string \<Rightarrow> request" where
  "newsRequest key =
     \<lparr>endpoint = ''https://newsapi.org/v2/everything'',
      params = [(''q'', ''economy OR federal reserve OR inflation OR GDP OR markets''),
                (''language'', ''en''),
                (''sortBy'', ''publishedAt''),
                (''pageSize'', ''20''),
                (''apiKey'', key)]\<rparr>"

text \<open>
  What the module reads of the \<^verbatim>\<open>Response\<close>: \<^verbatim>\<open>ok\<close>, \<^verbatim>\<open>status\<close> and the outcome of
  awaiting \<^verbatim>\<open>json()\<close>.
\<close>

record response =
  ok :: bool
  status :: nat
  json :: "thrown + jsval"

text \<open>What the module does to the outside, in order.\<close>

datatype event =
    Warn string
  | Error string jsval
  | Fetch request
  | Json

text \<open>
  The body of the \<^verbatim>\<open>try\<close> block. \<open>fetch\<close> is the network: what awaiting the call
  gives for a request, a response or a rejection. The parameter object is converted by
  \<^verbatim>\<open>URLSearchParams\<close>, which applies ToString to \<^verbatim>\<open>apiKey\<close>.
\<close>

definition tryBlock ::
  "jsval \<Rightarrow> (request \<Rightarrow> thrown + response) \<Rightarrow> string \<Rightarrow> (thrown + summary option) \<times> event list"
where
  "tryBlock env fetch now =
     (case getProp env ''NEWSAPI_KEY'' of Inl e \<Rightarrow> (Inl e, [])
      | Inr apiKey \<Rightarrow>
        if \<not> truthy apiKey then (Inr None, [Warn ''NEWSAPI_KEY not configured''])
        else
     (case toStr apiKey of Inl e \<Rightarrow> (Inl e, [])
      | Inr key \<Rightarrow>
        let req = newsRequest key in
     (case fetch req of Inl e \<Rightarrow> (Inl e, [Fetch req])
      | Inr resp \<Rightarrow>
        if \<not> ok resp
        then (Inr None, [Fetch req, Warn (''NewsAPI returned '' @ dec (status resp))])
        else
     (case json resp of Inl e \<Rightarrow> (Inl e, [Fetch req, Json])
      | Inr data \<Rightarrow> (structureNewsData now data, [Fetch req, Json])))))"

text \<open>\<^verbatim>\<open>error.message\<close> in the \<^verbatim>\<open>catch\<close> clause.\<close>

fun errorMessage :: "thrown \<Rightarrow> thrown + jsval" where
  "errorMessage (TypeError m) = Inr (JStr m)"
| "errorMessage (Thrown v) = getProp v ''message''"

text \<open>
  \<^verbatim>\<open>fetchNewsSentiment(env)\<close>: the result is \<open>Inr\<close> of what the promise resolves with
  (\<open>None\<close> for \<^verbatim>\<open>null\<close>) or \<open>Inl\<close> of what it rejects with, together with the events in
  the order they happened.
\<close>

definition fetchNewsSentiment ::
  "jsval \<Rightarrow> (request \<Rightarrow> thrown + response) \<Rightarrow> string \<Rightarrow> (thrown + summary option) \<times> event list"
where
  "fetchNewsSentiment env fetch now =
     (case tryBlock env fetch now of
        (Inr result, log) \<Rightarrow> (Inr result, log)
      | (Inl error, log) \<Rightarrow>
          (case errorMessage error of Inl e \<Rightarrow> (Inl e, log)
           | Inr m \<Rightarrow> (Inr None, log @ [Error ''NewsAPI fetch failed:'' m])))"

section \<open>Notions the properties are stated with\<close>

text \<open>The keywords the table gives a theme (none for a label that is not in the table).\<close>

definition keywordsOf :: "string \<Rightarrow> string list" where
  "keywordsOf theme = (case map_of themeKeywords theme of None \<Rightarrow> [] | Some kws \<Rightarrow> kws)"

text \<open>A theme matches a text when one of its keywords occurs in the text.\<close>

definition themeMatches :: "string \<Rightarrow> string \<Rightarrow> bool" where
  "themeMatches text theme = list_ex (\<lambda>kw. includes_str text kw) (keywordsOf theme)"

text \<open>The count the dictionary holds for a theme (0 when the key is absent).\<close>

definition countOf :: "counts \<Rightarrow> string \<Rightarrow> nat" where
  "countOf themeCounts theme = (case map_of themeCounts theme of None \<Rightarrow> 0 | Some c \<Rightarrow> c)"

text \<open>The labels in the order the table declares them.\<close>

definition themeNames :: "string list" where
  "themeNames = map fst themeKeywords"

text \<open>The position of a label in the table.\<close>

definition tableIndex :: "string \<Rightarrow> nat" where
  "tableIndex theme = length (takeWhile (\<lambda>t. t \<noteq> theme) (map fst themeKeywords))"

text \<open>The search text of the article can be built: no read or conversion in it faults.\<close>

definition searchable :: "jsval \<Rightarrow> bool" where
  "searchable article = (case searchText article of Inl e \<Rightarrow> False | Inr t \<Rightarrow> True)"

text \<open>The search text of a searchable article.\<close>

definition textOf :: "jsval \<Rightarrow> string" where
  "textOf article = (case searchText article of Inl e \<Rightarrow> [] | Inr t \<Rightarrow> t)"

text \<open>The article matches the theme: its search text does.\<close>

definition articleMatches :: "jsval \<Rightarrow> string \<Rightarrow> bool" where
  "articleMatches article theme = themeMatches (textOf article) theme"

text \<open>The occurrence count of a theme: the number of articles that match it.\<close>

definition themeCount :: "jsval list \<Rightarrow> string \<Rightarrow> nat" where
  "themeCount articles theme = length (filter (\<lambda>a. articleMatches a theme) articles)"

text \<open>
  The index of the first article that matches the theme (the length of the list when none
  does).
\<close>

definition firstMatch :: "jsval list \<Rightarrow> string \<Rightarrow> nat" where
  "firstMatch articles theme = length (takeWhile (\<lambda>a. \<not> articleMatches a theme) articles)"

text \<open>
  The order in which two themes were first written to the dictionary: by the first article
  that matched, then by the table.
\<close>

definition earlier :: "jsval list \<Rightarrow> string \<Rightarrow> string \<Rightarrow> bool" where
  "earlier articles a b =
     (firstMatch articles a < firstMatch articles b \<or>
      (firstMatch articles a = firstMatch articles b \<and> tableIndex a < tableIndex b))"

text \<open>The order of the result: larger count first, and among equal counts the theme first seen.\<close>

definition ranksBefore :: "jsval list \<Rightarrow> string \<Rightarrow> string \<Rightarrow> bool" where
  "ranksBefore articles a b =
     (themeCount articles b < themeCount articles a \<or>
      (themeCount articles a = themeCount articles b \<and> earlier articles a b))"

text \<open>
  The article has a source to read \<^verbatim>\<open>name\<close> from: reading \<^verbatim>\<open>source\<close> gives neither a
  fault nor \<^verbatim>\<open>undefined\<close> or \<^verbatim>\<open>null\<close>.
\<close>

definition hasSource :: "jsval \<Rightarrow> bool" where
  "hasSource article =
     (case getProp article ''source'' of Inl e \<Rightarrow> False | Inr src \<Rightarrow> \<not> nullish src)"

text \<open>
  The value of a property of a value that can be read (\<^verbatim>\<open>undefined\<close> when the property
  is missing).
\<close>

definition propOf :: "jsval \<Rightarrow> string \<Rightarrow> jsval" where
  "propOf v p = (case getProp v p of Inl e \<Rightarrow> JUndefined | Inr x \<Rightarrow> x)"

text \<open>The projection of a raw article to a headline.\<close>

definition headlineOf :: "jsval \<Rightarrow> headline" where
  "headlineOf article =
     \<lparr>title = propOf article ''title'',
      source = propOf (propOf article ''source'') ''name'',
      publishedAt = propOf article ''publishedAt'',
      url = propOf article ''url''\<rparr>"

text \<open>The outcome is a throw of \<^verbatim>\<open>undefined\<close> or \<^verbatim>\<open>null\<close>.\<close>

definition throwsNullish :: "thrown + 'a \<Rightarrow> bool" where
  "throwsNullish r = (case r of Inl (Thrown v) \<Rightarrow> nullish v | _ \<Rightarrow> False)"

section \<open>Auxiliary notions of the proofs\<close>

text \<open>The themes a text matches, in table order.\<close>

definition hits :: "string \<Rightarrow> string list" where
  "hits text = filter (themeMatches text) themeNames"

text \<open>One write to the dictionary.\<close>

definition bump :: "string \<Rightarrow> counts \<Rightarrow> counts" where
  "bump theme themeCounts = AList.update theme (countOf themeCounts theme + 1) themeCounts"

text \<open>The dictionary is well formed: its keys are distinct and every stored count is positive.\<close>

definition counted :: "counts \<Rightarrow> bool" where
  "counted cs = (distinct (map fst cs) \<and> (\<forall>(k, v) \<in> set cs. 0 < v))"

text \<open>The dictionary after the loop over the articles, once every search text can be built.\<close>

definition tally :: "jsval list \<Rightarrow> counts \<Rightarrow> counts" where
  "tally articles cs = fold (\<lambda>a. countThemes (textOf a)) articles cs"

text \<open>All the themes that occur, in the order of the result.\<close>

definition ranked :: "jsval list \<Rightarrow> string list" where
  "ranked articles =
     sort_key (\<lambda>t. - int (themeCount articles t)) (map fst (tally articles []))"

section \<open>Example inputs\<close>

text \<open>
  Articles, bodies, configurations and networks the properties are evaluated on. An
  article made by \<open>rawArticle\<close> has every field of the upstream format; \<open>respond\<close> is a
  network that answers every request with one response, \<open>reject\<close> one that rejects every
  request.
\<close>

definition rawArticle :: "string \<Rightarrow> string \<Rightarrow> jsval" where
  "rawArticle t d =
     JObj [(''title'', JStr t), (''description'', JStr d),
           (''source'', JObj [(''name'', JStr ''Wire'')]),
           (''publishedAt'', JStr ''2024-01-01T00:00:00Z''), (''url'', JStr ''u1'')]"

definition tied_articles :: "jsval list" where
  "tied_articles =
     [rawArticle ''GDP beats forecasts'' ''Output rose'',
      rawArticle ''GDP up while CPI cools'' ''Mixed data'',
      rawArticle ''CPI and GDP revised'' ''Revisions'',
      rawArticle ''CPI surprise lifts stocks'' ''Rally'']"

definition split_article :: jsval where
  "split_article = rawArticle ''Rising interest'' ''rates hit borrowers''"

definition busy_articles :: "jsval list" where
  "busy_articles =
     [rawArticle ''Fed signals rate path'' ''Update'',
      rawArticle ''Inflation cools as prices ease'' ''Update'',
      rawArticle ''Jobs report beats, wages rise'' ''Update'',
      rawArticle ''Stocks rally as bonds slip'' ''Update'',
      rawArticle ''Fed watchers eye inflation'' ''Update'',
      rawArticle ''Fed minutes'' ''Update'']"

definition tied_articles_table_order :: "jsval list" where
  "tied_articles_table_order =
     [rawArticle ''CPI and GDP revised'' ''Revisions'',
      rawArticle ''GDP up while CPI cools'' ''Mixed data'',
      rawArticle ''GDP beats forecasts'' ''Output rose'',
      rawArticle ''CPI surprise lifts stocks'' ''Rally'']"

definition fed_article :: jsval where
  "fed_article = rawArticle ''Fed holds interest rates steady'' ''Powell signals caution''"

definition configured_env :: jsval where
  "configured_env = JObj [(''NEWSAPI_KEY'', JStr ''k3y'')]"

definition empty_env :: jsval where
  "empty_env = JObj []"

definition newsBody :: "jsval list \<Rightarrow> jsval" where
  "newsBody articles = JObj [(''status'', JStr ''ok''), (''articles'', JArr articles)]"

definition respond :: "response \<Rightarrow> request \<Rightarrow> thrown + response" where
  "respond r req = Inr r"


definition twelve_articles :: "jsval list" where
  "twelve_articles = busy_articles @ busy_articles"

definition example_article :: jsval where
  "example_article =
     JObj [(''title'', JStr ''Fed holds interest rates steady''),
           (''description'', JStr ''Powell signals caution''),
           (''source'', JObj [(''name'', JStr ''X'')]),
           (''publishedAt'', JStr ''2024-01-01T00:00:00Z''), (''url'', JStr ''u1'')]"

definition sourceless_article :: jsval where
  "sourceless_article = JObj [(''title'', JStr ''Bonds slide''), (''url'', JStr ''u2'')]"

definition now0 :: string where
  "now0 = ''2024-01-02T03:04:05.678Z''"

text \<open>
  A response with a given status: the Fetch standard sets \<^verbatim>\<open>ok\<close> for the statuses 200 to
  299.
\<close>

definition httpResponse :: "nat \<Rightarrow> thrown + jsval \<Rightarrow> response" where
  "httpResponse st body = \<lparr>ok = (200 \<le> st \<and> st \<le> 299), status = st, json = body\<rparr>"

definition server_error_response :: response where
  "server_error_response = httpResponse 500 (Inr (newsBody busy_articles))"

definition okResponse :: "jsval \<Rightarrow> response" where
  "okResponse body = httpResponse 200 (Inr body)"

section \<open>The dictionary of counts\<close>

lemma dec_small: "n < 10 \<Longrightarrow> dec n = [''0123456789'' ! n]"
  by (simp add: dec.simps)

lemma includes_str_sublist: "includes_str text kw \<longleftrightarrow> sublist kw text"
  by (induction "text") (simp_all add: sublist_Cons_right)

lemma includes_str_iff: "includes_str text kw \<longleftrightarrow> (\<exists>ps ss. text = ps @ kw @ ss)"
  by (simp add: includes_str_sublist sublist_def)

lemma themeNames_eq:
  "themeNames = [''monetary_policy'', ''inflation'', ''growth'', ''employment'', ''markets'']"
  by (simp add: themeNames_def themeKeywords_def)

lemma distinct_themeNames: "distinct themeNames"
  by (simp add: themeNames_eq)

lemma countTheme_bump:
  "countTheme text (theme, keywords) cs =
     (if list_ex (\<lambda>kw. includes_str text kw) keywords then bump theme cs else cs)"
  by (simp add: countTheme_def bump_def countOf_def)

lemma fold_countTheme:
  "distinct (map fst tbl) \<Longrightarrow>
   fold (countTheme text) tbl cs =
     fold bump (filter (\<lambda>th. list_ex (\<lambda>kw. includes_str text kw)
                         (case map_of tbl th of None \<Rightarrow> [] | Some kws \<Rightarrow> kws)) (map fst tbl)) cs"
proof (induction tbl arbitrary: cs)
  case Nil
  show ?case by simp
next
  case (Cons entry tbl)
  obtain th kws where entry: "entry = (th, kws)" by (cases entry)
  from Cons.prems have fresh: "th \<notin> fst ` set tbl" and dist: "distinct (map fst tbl)"
    by (simp_all add: entry)
  have same: "filter (\<lambda>t. list_ex (\<lambda>kw. includes_str text kw)
                 (case map_of (entry # tbl) t of None \<Rightarrow> [] | Some kws \<Rightarrow> kws)) (map fst tbl)
            = filter (\<lambda>t. list_ex (\<lambda>kw. includes_str text kw)
                 (case map_of tbl t of None \<Rightarrow> [] | Some kws \<Rightarrow> kws)) (map fst tbl)"
    using fresh by (intro filter_cong) (auto simp: entry)
  show ?case
    using Cons.IH [OF dist] same by (simp add: entry countTheme_bump)
qed

lemma countThemes_hits: "countThemes text cs = fold bump (hits text) cs"
  unfolding countThemes_def hits_def themeNames_def
  using fold_countTheme [of themeKeywords "text" cs] distinct_themeNames
  by (simp add: themeNames_def themeMatches_def [abs_def] keywordsOf_def)

lemma distinct_hits: "distinct (hits text)"
  by (simp add: hits_def distinct_themeNames)

lemma set_hits: "set (hits text) = {th. themeMatches text th}"
proof -
  have "themeMatches text th \<Longrightarrow> th \<in> set themeNames" for th
    by (force simp: themeMatches_def keywordsOf_def themeNames_def
              split: option.splits dest: map_of_SomeD)
  then show ?thesis by (auto simp: hits_def)
qed

lemma countOf_bump: "countOf (bump h cs) t = countOf cs t + (if t = h then 1 else 0)"
  by (simp add: bump_def countOf_def update_conv')

lemma keys_bump:
  "map fst (bump h cs) = (if h \<in> set (map fst cs) then map fst cs else map fst cs @ [h])"
  by (simp add: bump_def update_keys)

lemma countOf_fold_bump: "countOf (fold bump hs cs) t = countOf cs t + count_list hs t"
  by (induction hs arbitrary: cs) (auto simp: countOf_bump)

lemma keys_fold_bump:
  "distinct hs \<Longrightarrow>
   map fst (fold bump hs cs) = map fst cs @ filter (\<lambda>h. h \<notin> set (map fst cs)) hs"
proof (induction hs arbitrary: cs)
  case Nil
  show ?case by simp
next
  case (Cons h hs)
  then have h: "h \<notin> set hs" and d: "distinct hs" by simp_all
  have "filter (\<lambda>x. x \<noteq> h \<and> x \<notin> fst ` set cs) hs = filter (\<lambda>x. x \<notin> fst ` set cs) hs"
    using h by (intro filter_cong) auto
  then show ?case
    using Cons.IH [OF d, of "bump h cs"] by (auto simp: keys_bump)
qed

lemma set_update_subset: "set (AList.update k v al) \<subseteq> insert (k, v) (set al)"
  by (induct al) auto

lemma counted_bump:
  assumes "counted cs"
  shows "counted (bump h cs)"
proof -
  have "set (bump h cs) \<subseteq> insert (h, countOf cs h + 1) (set cs)"
    by (simp add: bump_def set_update_subset)
  moreover have "distinct (map fst (bump h cs))"
    using assms by (simp add: counted_def bump_def distinct_update)
  ultimately show ?thesis
    using assms unfolding counted_def by fastforce
qed

lemma counted_fold_bump: "counted cs \<Longrightarrow> counted (fold bump hs cs)"
  by (induction hs arbitrary: cs) (auto simp: counted_bump)

lemma counted_key_iff: "counted cs \<Longrightarrow> t \<in> set (map fst cs) \<longleftrightarrow> 0 < countOf cs t"
  unfolding counted_def countOf_def
  by (force split: option.splits simp: map_of_eq_None_iff dest: map_of_SomeD)

lemma counted_entries: "counted cs \<Longrightarrow> cs = map (\<lambda>t. (t, countOf cs t)) (map fst cs)"
  unfolding counted_def countOf_def
  by (auto intro!: map_idI [symmetric] simp: o_def)

lemma count_list_distinct: "distinct xs \<Longrightarrow> count_list xs x = (if x \<in> set xs then 1 else 0)"
  by (induction xs) auto

lemma countOf_countThemes:
  "countOf (countThemes str cs) t = countOf cs t + (if themeMatches str t then 1 else 0)"
  by (simp add: countThemes_hits countOf_fold_bump count_list_distinct distinct_hits set_hits)

lemma counted_countThemes: "counted cs \<Longrightarrow> counted (countThemes str cs)"
  by (simp add: countThemes_hits counted_fold_bump)

lemma keys_countThemes:
  "map fst (countThemes str cs) = map fst cs @ filter (\<lambda>h. h \<notin> set (map fst cs)) (hits str)"
  by (simp add: countThemes_hits keys_fold_bump distinct_hits)

lemma forEachArticle_tally:
  "\<forall>a \<in> set as. searchable a \<Longrightarrow> forEachArticle as cs = Inr (tally as cs)"
  by (induction as arbitrary: cs)
     (auto simp: tally_def searchable_def textOf_def split: sum.splits)

lemma forEachArticle_Inr: "forEachArticle as cs = Inr cs' \<Longrightarrow> \<forall>a \<in> set as. searchable a"
proof (induction as arbitrary: cs)
  case Nil
  show ?case by simp
next
  case (Cons a as)
  from Cons.prems obtain t where t: "searchText a = Inr t"
    and rest: "forEachArticle as (countThemes t cs) = Inr cs'"
    by (auto split: sum.splits)
  from Cons.IH [OF rest] t show ?case by (simp add: searchable_def)
qed

lemma forEachArticle_Inl:
  "forEachArticle as cs = Inl e \<Longrightarrow> \<exists>a \<in> set as. searchText a = Inl e"
  by (induction as arbitrary: cs) (auto split: sum.splits)

lemma counted_tally: "counted cs \<Longrightarrow> counted (tally as cs)"
  unfolding tally_def by (induction as arbitrary: cs) (auto simp: counted_countThemes)

lemma countOf_tally: "countOf (tally as cs) t = countOf cs t + themeCount as t"
  unfolding tally_def themeCount_def
  by (induction as arbitrary: cs) (auto simp: countOf_countThemes articleMatches_def)

lemma counted_Nil: "counted []"
  by (simp add: counted_def)

lemma countOf_Nil: "countOf [] t = 0"
  by (simp add: countOf_def)

lemma countOf_final: "countOf (tally as []) t = themeCount as t"
  by (simp add: countOf_tally countOf_Nil)

lemma keys_final: "set (map fst (tally as [])) = {t. 0 < themeCount as t}"
  using counted_key_iff [OF counted_tally [OF counted_Nil], of _ as]
  by (auto simp: countOf_final)

lemma tally_snoc: "tally (as @ [a]) cs = countThemes (textOf a) (tally as cs)"
  by (simp add: tally_def)

lemma themeCount_pos_iff: "0 < themeCount as t \<longleftrightarrow> (\<exists>a \<in> set as. articleMatches a t)"
  by (auto simp: themeCount_def filter_empty_conv)

lemma length_takeWhile_less: "\<exists>x \<in> set xs. \<not> P x \<Longrightarrow> length (takeWhile P xs) < length xs"
  by (induction xs) auto

lemma firstMatch_less: "0 < themeCount as t \<Longrightarrow> firstMatch as t < length as"
  unfolding firstMatch_def themeCount_pos_iff
  by (rule length_takeWhile_less) simp

lemma firstMatch_snoc_old:
  "0 < themeCount as t \<Longrightarrow> firstMatch (as @ [a]) t = firstMatch as t"
  unfolding firstMatch_def themeCount_pos_iff
  by (auto simp: takeWhile_append1)

lemma firstMatch_snoc_new:
  "themeCount as t = 0 \<Longrightarrow> articleMatches a t \<Longrightarrow> firstMatch (as @ [a]) t = length as"
proof -
  assume "themeCount as t = 0" and m: "articleMatches a t"
  then have "\<forall>x \<in> set as. \<not> articleMatches x t"
    using themeCount_pos_iff [of as t] by auto
  then show ?thesis
    using m by (simp add: firstMatch_def takeWhile_append2)
qed

lemma sorted_tableIndex: "sorted_wrt (\<lambda>a b. tableIndex a < tableIndex b) themeNames"
  by (simp add: themeNames_eq tableIndex_def themeKeywords_def)

lemma keys_order: "sorted_wrt (earlier as) (map fst (tally as []))"
proof (induction as rule: rev_induct)
  case Nil
  show ?case by (simp add: tally_def)
next
  case (snoc a as)
  let ?K = "map fst (tally as [])"
  let ?new = "filter (\<lambda>h. h \<notin> set ?K) (hits (textOf a))"
  have keys: "map fst (tally (as @ [a]) []) = ?K @ ?new"
    by (simp add: tally_snoc keys_countThemes)
  have old: "t \<in> set ?K \<Longrightarrow> 0 < themeCount as t" for t
    using keys_final [of as] by auto
  have new: "t \<in> set ?new \<Longrightarrow> themeCount as t = 0 \<and> articleMatches a t" for t
    using keys_final [of as] by (auto simp: set_hits articleMatches_def)
  have 1: "sorted_wrt (earlier (as @ [a])) ?K"
  proof (rule sorted_wrt_mono_rel [OF _ snoc.IH])
    fix x y
    assume "x \<in> set ?K" "y \<in> set ?K" "earlier as x y"
    then show "earlier (as @ [a]) x y"
      using old [of x] old [of y] by (simp add: earlier_def firstMatch_snoc_old)
  qed
  have "sorted_wrt (\<lambda>x y. tableIndex x < tableIndex y) ?new"
    unfolding hits_def using sorted_tableIndex by (simp add: sorted_wrt_filter)
  then have 2: "sorted_wrt (earlier (as @ [a])) ?new"
  proof (rule sorted_wrt_mono_rel [rotated])
    fix x y
    assume "x \<in> set ?new" "y \<in> set ?new" "tableIndex x < tableIndex y"
    then show "earlier (as @ [a]) x y"
      using new [of x] new [of y] by (simp add: earlier_def firstMatch_snoc_new)
  qed
  have 3: "earlier (as @ [a]) x y" if "x \<in> set ?K" "y \<in> set ?new" for x y
    using old [OF that(1)] new [OF that(2)]
    by (simp add: earlier_def firstMatch_snoc_old firstMatch_snoc_new firstMatch_less)
  show ?case
    unfolding keys sorted_wrt_append using 1 2 3 by blast
qed

lemma insort_key_map:
  "insort_key f (h x) (map h ys) = map h (insort_key (\<lambda>a. f (h a)) x ys)"
  by (induction ys) auto

lemma sort_key_map: "sort_key f (map h xs) = map h (sort_key (\<lambda>a. f (h a)) xs)"
  by (induction xs) (simp_all add: insort_key_map)

lemma topThemes_counted:
  assumes "counted cs"
  shows "topThemes cs = take 3 (sort_key (\<lambda>t. - int (countOf cs t)) (map fst cs))"
proof -
  let ?h = "\<lambda>t. (t, countOf cs t)"
  let ?f = "\<lambda>(theme, count). - int count"
  have "sort_key ?f cs = sort_key ?f (map ?h (map fst cs))"
    using counted_entries [OF assms] by simp
  also have "\<dots> = map ?h (sort_key (\<lambda>a. ?f (?h a)) (map fst cs))"
    by (rule sort_key_map)
  finally have "topThemes cs = map fst (take 3 (map ?h (sort_key (\<lambda>a. ?f (?h a)) (map fst cs))))"
    by (simp add: topThemes_def)
  also have "\<dots> = take 3 (sort_key (\<lambda>a. ?f (?h a)) (map fst cs))"
    by (simp add: take_map o_def)
  finally show ?thesis by simp
qed

lemma extractThemes_ranked:
  assumes "\<forall>a \<in> set as. searchable a"
  shows "extractThemes (JArr as) = Inr (take 3 (ranked as))"
proof -
  have "counted (tally as [])"
    by (rule counted_tally [OF counted_Nil])
  then show ?thesis
    by (simp add: forEachArticle_tally [OF assms] topThemes_counted countOf_final ranked_def)
qed

lemma extractThemes_Inr_iff:
  "(\<exists>out. extractThemes (JArr as) = Inr out) \<longleftrightarrow> (\<forall>a \<in> set as. searchable a)"
proof
  assume "\<exists>out. extractThemes (JArr as) = Inr out"
  then obtain cs where "forEachArticle as [] = Inr cs"
    by (auto split: sum.splits)
  then show "\<forall>a \<in> set as. searchable a"
    by (rule forEachArticle_Inr)
next
  assume "\<forall>a \<in> set as. searchable a"
  then show "\<exists>out. extractThemes (JArr as) = Inr out"
    using extractThemes_ranked by blast
qed

lemma sorted_stable_order:
  "sorted (map f xs) \<Longrightarrow> (\<And>k. sorted_wrt R (filter (\<lambda>y. f y = k) xs)) \<Longrightarrow>
   sorted_wrt (\<lambda>a b. f a < f b \<or> (f a = f b \<and> R a b)) xs"
proof (induction xs)
  case Nil
  show ?case by simp
next
  case (Cons x xs)
  have tail: "sorted_wrt R (filter (\<lambda>y. f y = k) xs)" for k
    using Cons.prems(2) [of k] by (simp split: if_splits)
  have head: "f x < f y \<or> (f x = f y \<and> R x y)" if "y \<in> set xs" for y
  proof (cases "f x = f y")
    case True
    with Cons.prems(2) [of "f x"] that show ?thesis by auto
  next
    case False
    with Cons.prems(1) that show ?thesis by fastforce
  qed
  from Cons.prems(1) have "sorted (map f xs)" by simp
  from Cons.IH [OF this tail] head show ?case by simp
qed

lemma sort_key_order:
  assumes "sorted_wrt R xs"
  shows "sorted_wrt (\<lambda>a b. f a < f b \<or> (f a = f b \<and> R a b)) (sort_key f xs)"
proof (rule sorted_stable_order)
  show "sorted (map f (sort_key f xs))" by (rule sorted_sort_key)
next
  fix k
  show "sorted_wrt R (filter (\<lambda>y. f y = k) (sort_key f xs))"
    using assms by (simp add: sort_key_stable sorted_wrt_filter)
qed

lemma ranked_order: "sorted_wrt (ranksBefore as) (ranked as)"
proof -
  have "sorted_wrt (\<lambda>a b. - int (themeCount as a) < - int (themeCount as b) \<or>
          (- int (themeCount as a) = - int (themeCount as b) \<and> earlier as a b)) (ranked as)"
    unfolding ranked_def by (rule sort_key_order [OF keys_order])
  then show ?thesis
    by (rule sorted_wrt_mono_rel [rotated]) (auto simp: ranksBefore_def)
qed

lemma set_ranked: "set (ranked as) = {t. 0 < themeCount as t}"
  using keys_final [of as] by (simp add: ranked_def)

lemma distinct_ranked: "distinct (ranked as)"
  using counted_tally [OF counted_Nil, of as] by (simp add: ranked_def counted_def)

lemma themeCount_pos_theme: "0 < themeCount as t \<Longrightarrow> t \<in> set themeNames"
  using set_hits by (auto simp: themeCount_pos_iff articleMatches_def hits_def)

lemma length_ranked:
  "length (ranked as) = length (filter (\<lambda>t. 0 < themeCount as t) themeNames)"
proof -
  have "set (ranked as) = set (filter (\<lambda>t. 0 < themeCount as t) themeNames)"
    using themeCount_pos_theme [of as] by (auto simp: set_ranked)
  moreover have "distinct (filter (\<lambda>t. 0 < themeCount as t) themeNames)"
    by (simp add: distinct_themeNames)
  ultimately show ?thesis
    using distinct_ranked [of as] by (metis distinct_card)
qed

lemma top3_dominates:
  assumes "t \<notin> set (take 3 (ranked as))" and "u \<in> set (take 3 (ranked as))"
  shows "themeCount as t \<le> themeCount as u"
proof (cases "t \<in> set (ranked as)")
  case True
  with assms(1) have "t \<in> set (drop 3 (ranked as))"
    by (metis Un_iff append_take_drop_id set_append)
  moreover have "sorted_wrt (ranksBefore as) (take 3 (ranked as) @ drop 3 (ranked as))"
    using ranked_order [of as] by simp
  ultimately have "ranksBefore as u t"
    using assms(2) unfolding sorted_wrt_append by blast
  then show ?thesis by (auto simp: ranksBefore_def)
next
  case False
  then show ?thesis by (simp add: set_ranked)
qed

lemma themeMatches_iff:
  "themeMatches str theme \<longleftrightarrow>
     (\<exists>keywords kw. (theme, keywords) \<in> set themeKeywords \<and> kw \<in> set keywords \<and>
        (\<exists>ps ss. str = ps @ kw @ ss))"
proof (cases "map_of themeKeywords theme")
  case None
  then have "theme \<notin> fst ` set themeKeywords"
    by (simp add: map_of_eq_None_iff)
  then have "\<And>kws. (theme, kws) \<notin> set themeKeywords"
    by force
  with None show ?thesis
    by (simp add: themeMatches_def keywordsOf_def)
next
  case (Some kws)
  have iff: "map_of themeKeywords theme = Some kws' \<longleftrightarrow> (theme, kws') \<in> set themeKeywords" for kws'
    using distinct_themeNames by (simp add: themeNames_def)
  have uniq: "(theme, kws') \<in> set themeKeywords \<longleftrightarrow> kws' = kws" for kws'
    unfolding iff [symmetric] Some by auto
  show ?thesis
    by (simp add: themeMatches_def keywordsOf_def Some list_ex_iff includes_str_iff uniq Bex_def)
qed

lemma searchText_strings:
  assumes "getProp article ''title'' = Inr (JStr t)"
    and "getProp article ''description'' = Inr dv"
    and "dv = JStr d \<or> (nullish dv \<and> d = [])"
  shows "searchText article = Inr (toLowerCase (t @ '' '' @ d))"
  using assms by (auto simp: searchText_def nullish_def)

lemma themeCount_forEach: "forEachArticle as [] = Inr cs \<Longrightarrow> themeCount as t = countOf cs t"
  using forEachArticle_tally [OF forEachArticle_Inr, of as "[]" cs "[]"] countOf_final [of as t]
  by simp

lemma ranksBefore_tie:
  "ranksBefore as x y \<Longrightarrow> themeCount as x = themeCount as y \<Longrightarrow> earlier as x y"
  by (simp add: ranksBefore_def)

lemma sorted3_unique:
  assumes "R a b" "R a c" "R b c" and "{a, b, c} = {x, y, z}"
    and "\<not> R y x" "\<not> R z x" "\<not> R z y" and "a \<noteq> b" "a \<noteq> c" "b \<noteq> c"
  shows "a = x \<and> b = y \<and> c = z"
proof -
  from assms(4) have "a \<in> {x, y, z}" "b \<in> {x, y, z}" "c \<in> {x, y, z}"
    by blast+
  with assms(1-3,5-10) show ?thesis
    by auto
qed

lemma three_ranked:
  assumes counts: "themeCount as ''inflation'' = 3" "themeCount as ''growth'' = 3"
      "themeCount as ''markets'' = 1" "themeCount as ''monetary_policy'' = 0"
      "themeCount as ''employment'' = 0"
    and first: "firstMatch as ''inflation'' \<le> firstMatch as ''growth''"
  shows "ranked as = [''inflation'', ''growth'', ''markets'']"
proof -
  have "set (ranked as) = set (filter (\<lambda>t. 0 < themeCount as t) themeNames)"
    using themeCount_pos_theme [of as] by (auto simp: set_ranked)
  also have "\<dots> = {''inflation'', ''growth'', ''markets''}"
    using counts by (simp add: themeNames_eq)
  finally have set: "set (ranked as) = {''inflation'', ''growth'', ''markets''}" .
  have "length (ranked as) = 3"
    using counts by (simp add: length_ranked themeNames_eq)
  then obtain a b c where abc: "ranked as = [a, b, c]"
    by (auto simp: numeral_3_eq_3 length_Suc_conv)
  have ti: "tableIndex ''inflation'' < tableIndex ''growth''"
    by (simp add: tableIndex_def themeKeywords_def)
  have no1: "\<not> ranksBefore as ''growth'' ''inflation''"
    using counts first ti by (auto simp: ranksBefore_def earlier_def)
  have no2: "\<not> ranksBefore as ''markets'' ''inflation''" "\<not> ranksBefore as ''markets'' ''growth''"
    using counts by (auto simp: ranksBefore_def)
  have ord: "ranksBefore as a b" "ranksBefore as a c" "ranksBefore as b c"
    using ranked_order [of as] by (simp_all add: abc)
  have dist: "a \<noteq> b" "a \<noteq> c" "b \<noteq> c"
    using distinct_ranked [of as] by (simp_all add: abc)
  have mem: "{a, b, c} = {''inflation'', ''growth'', ''markets''}"
    using set by (simp add: abc)
  from sorted3_unique [OF ord mem no1 no2 dist] show ?thesis
    by (simp add: abc)
qed

lemma searchable_strings:
  assumes "getProp article ''title'' = Inr (JStr t)"
    and "getProp article ''description'' = Inr dv"
    and "dv = JStr d \<or> (nullish dv \<and> d = [])"
  shows "searchable article"
  using searchText_strings [OF assms] by (simp add: searchable_def)

section \<open>Properties of extractThemes\<close>

text \<open>
  C9. For every list of articles whose search texts can be built, \<^verbatim>\<open>extractThemes\<close> returns,
  and the sequence it returns has no label twice and holds only labels of the five-element
  set monetary_policy, inflation, growth, employment, markets.
\<close>

theorem themes_distinct_labels:
  assumes "\<forall>a \<in> set articles. searchable a"
  shows "\<exists>out. extractThemes (JArr articles) = Inr out \<and> distinct out \<and>
           set out \<subseteq> {''monetary_policy'', ''inflation'', ''growth'', ''employment'', ''markets''}"
proof -
  have "set (take 3 (ranked articles)) \<subseteq> set themeNames"
    using set_take_subset [of 3 "ranked articles"] themeCount_pos_theme [of articles]
    by (auto simp: set_ranked)
  then show ?thesis
    using extractThemes_ranked [OF assms] distinct_ranked [of articles]
    by (simp add: themeNames_eq)
qed

theorem themes_distinct_labels_witness:
  "extractThemes (JArr tied_articles) = Inr [''growth'', ''inflation'', ''markets''] \<and>
   distinct [''growth'', ''inflation'', ''markets''] \<and>
   set [''growth'', ''inflation'', ''markets'']
     \<subseteq> {''monetary_policy'', ''inflation'', ''growth'', ''employment'', ''markets''}"
proof -
  have h: "\<forall>a \<in> set tied_articles. searchable a" by code_simp
  have e: "extractThemes (JArr tied_articles) = Inr [''growth'', ''inflation'', ''markets'']"
    by code_simp
  from themes_distinct_labels [OF h] e show ?thesis by simp
qed

text \<open>
  C5. For every list of articles whose search texts can be built, the returned sequence is
  sorted by descending occurrence count, holds no theme whose count is zero, has
  \<open>min 3 n\<close> elements where \<open>n\<close> is the number of themes with a nonzero count, and no theme
  left out has a larger count than a theme returned; when no article matches any theme,
  the sequence is empty.
\<close>

theorem themes_sorted_top3:
  assumes "\<forall>a \<in> set articles. searchable a"
  shows "\<exists>out. extractThemes (JArr articles) = Inr out \<and>
     (\<forall>i j. i < j \<and> j < length out \<longrightarrow>
        themeCount articles (out ! j) \<le> themeCount articles (out ! i)) \<and>
     (\<forall>t \<in> set out. 0 < themeCount articles t) \<and>
     length out = min 3 (length (filter (\<lambda>t. 0 < themeCount articles t) themeNames)) \<and>
     (\<forall>t u. t \<notin> set out \<and> u \<in> set out \<longrightarrow> themeCount articles t \<le> themeCount articles u) \<and>
     ((\<forall>a \<in> set articles. \<forall>t. \<not> articleMatches a t) \<longrightarrow> out = [])"
proof -
  let ?out = "take 3 (ranked articles)"
  have sorted: "sorted_wrt (ranksBefore articles) ?out"
    using ranked_order [of articles] by (rule sorted_wrt_take)
  have a: "\<forall>i j. i < j \<and> j < length ?out \<longrightarrow>
             themeCount articles (?out ! j) \<le> themeCount articles (?out ! i)"
    using sorted_wrt_nth_less [OF sorted] by (fastforce simp: ranksBefore_def)
  have b: "\<forall>t \<in> set ?out. 0 < themeCount articles t"
    using set_ranked [of articles] by (auto dest: in_set_takeD)
  have c: "length ?out = min 3 (length (filter (\<lambda>t. 0 < themeCount articles t) themeNames))"
    by (simp add: length_ranked min.commute)
  have d: "\<forall>t u. t \<notin> set ?out \<and> u \<in> set ?out \<longrightarrow> themeCount articles t \<le> themeCount articles u"
    using top3_dominates by blast
  have e: "(\<forall>a \<in> set articles. \<forall>t. \<not> articleMatches a t) \<longrightarrow> ?out = []"
  proof
    assume "\<forall>a \<in> set articles. \<forall>t. \<not> articleMatches a t"
    then have "set (ranked articles) = {}"
      by (simp add: set_ranked themeCount_pos_iff)
    then show "?out = []" by simp
  qed
  from extractThemes_ranked [OF assms] a b c d e show ?thesis by blast
qed

theorem themes_sorted_top3_witness:
  "extractThemes (JArr busy_articles) = Inr [''monetary_policy'', ''inflation'', ''employment''] \<and>
   themeCount busy_articles ''monetary_policy'' = 3 \<and>
   themeCount busy_articles ''inflation'' = 2 \<and>
   themeCount busy_articles ''employment'' = 1 \<and>
   themeCount busy_articles ''markets'' = 1 \<and>
   themeCount busy_articles ''growth'' = 0 \<and>
   length [''monetary_policy'', ''inflation'', ''employment'']
     = min 3 (length (filter (\<lambda>t. 0 < themeCount busy_articles t) themeNames))"
proof -
  have h: "\<forall>a \<in> set busy_articles. searchable a" by code_simp
  have e: "extractThemes (JArr busy_articles)
             = Inr [''monetary_policy'', ''inflation'', ''employment'']"
    by code_simp
  have "forEachArticle busy_articles []
          = Inr [(''monetary_policy'', 3), (''inflation'', 2), (''employment'', 1), (''markets'', 1)]"
    by code_simp
  note tc = themeCount_forEach [OF this]
  have c: "themeCount busy_articles ''monetary_policy'' = 3"
    "themeCount busy_articles ''inflation'' = 2"
    "themeCount busy_articles ''employment'' = 1"
    "themeCount busy_articles ''markets'' = 1"
    "themeCount busy_articles ''growth'' = 0"
    by (simp_all add: tc countOf_def)
  from themes_sorted_top3 [OF h] obtain out
    where "extractThemes (JArr busy_articles) = Inr out"
      and "length out = min 3 (length (filter (\<lambda>t. 0 < themeCount busy_articles t) themeNames))"
    by blast
  with e have "length [''monetary_policy'', ''inflation'', ''employment'']
     = min 3 (length (filter (\<lambda>t. 0 < themeCount busy_articles t) themeNames))"
    by simp
  with e c show ?thesis by blast
qed

text \<open>
  C2 (as amended). Between two themes with equal counts, the returned sequence puts first
  the one whose first matching article comes earlier in the list; the declaration order of
  the keyword table decides only between themes first matched by the same article. For
  the counts inflation 3, growth 3, markets 1 the sequence is inflation, growth, markets
  when the first article matching inflation is not later than the first matching growth.
  The claim as stated (ties always in declaration order) fails: see the counterexample.
\<close>

theorem tie_break_first_seen:
  assumes "\<forall>a \<in> set articles. searchable a"
  shows "\<exists>out. extractThemes (JArr articles) = Inr out \<and>
     (\<forall>i j. i < j \<and> j < length out \<and>
            themeCount articles (out ! i) = themeCount articles (out ! j) \<longrightarrow>
        firstMatch articles (out ! i) < firstMatch articles (out ! j) \<or>
        (firstMatch articles (out ! i) = firstMatch articles (out ! j) \<and>
         tableIndex (out ! i) < tableIndex (out ! j))) \<and>
     (themeCount articles ''inflation'' = 3 \<and> themeCount articles ''growth'' = 3 \<and>
      themeCount articles ''markets'' = 1 \<and> themeCount articles ''monetary_policy'' = 0 \<and>
      themeCount articles ''employment'' = 0 \<and>
      firstMatch articles ''inflation'' \<le> firstMatch articles ''growth'' \<longrightarrow>
        out = [''inflation'', ''growth'', ''markets''])"
proof -
  let ?out = "take 3 (ranked articles)"
  have sorted: "sorted_wrt (ranksBefore articles) ?out"
    using ranked_order [of articles] by (rule sorted_wrt_take)
  have a: "\<forall>i j. i < j \<and> j < length ?out \<and>
            themeCount articles (?out ! i) = themeCount articles (?out ! j) \<longrightarrow>
        firstMatch articles (?out ! i) < firstMatch articles (?out ! j) \<or>
        (firstMatch articles (?out ! i) = firstMatch articles (?out ! j) \<and>
         tableIndex (?out ! i) < tableIndex (?out ! j))"
  proof (intro allI impI)
    fix i j
    assume ij: "i < j \<and> j < length ?out \<and>
            themeCount articles (?out ! i) = themeCount articles (?out ! j)"
    then have "ranksBefore articles (?out ! i) (?out ! j)"
      using sorted_wrt_nth_less [OF sorted, of i j] by blast
    with ij have "earlier articles (?out ! i) (?out ! j)"
      by (blast intro: ranksBefore_tie)
    then show "firstMatch articles (?out ! i) < firstMatch articles (?out ! j) \<or>
        (firstMatch articles (?out ! i) = firstMatch articles (?out ! j) \<and>
         tableIndex (?out ! i) < tableIndex (?out ! j))"
      by (simp add: earlier_def)
  qed
  have b: "themeCount articles ''inflation'' = 3 \<and> themeCount articles ''growth'' = 3 \<and>
      themeCount articles ''markets'' = 1 \<and> themeCount articles ''monetary_policy'' = 0 \<and>
      themeCount articles ''employment'' = 0 \<and>
      firstMatch articles ''inflation'' \<le> firstMatch articles ''growth'' \<longrightarrow>
        ?out = [''inflation'', ''growth'', ''markets'']"
    using three_ranked [of articles] by simp
  from extractThemes_ranked [OF assms] a b show ?thesis by blast
qed

theorem tie_break_first_seen_witness:
  "extractThemes (JArr tied_articles_table_order) = Inr [''inflation'', ''growth'', ''markets''] \<and>
   themeCount tied_articles_table_order ''inflation'' = 3 \<and>
   themeCount tied_articles_table_order ''growth'' = 3 \<and>
   firstMatch tied_articles_table_order ''inflation'' = 0 \<and>
   firstMatch tied_articles_table_order ''growth'' = 0 \<and>
   tableIndex ''inflation'' < tableIndex ''growth''"
proof -
  have h: "\<forall>a \<in> set tied_articles_table_order. searchable a" by code_simp
  have "forEachArticle tied_articles_table_order []
          = Inr [(''inflation'', 3), (''growth'', 3), (''markets'', 1)]"
    by code_simp
  note tc = themeCount_forEach [OF this]
  have c: "themeCount tied_articles_table_order ''inflation'' = 3"
    "themeCount tied_articles_table_order ''growth'' = 3"
    "themeCount tied_articles_table_order ''markets'' = 1"
    "themeCount tied_articles_table_order ''monetary_policy'' = 0"
    "themeCount tied_articles_table_order ''employment'' = 0"
    by (simp_all add: tc countOf_def)
  have f: "firstMatch tied_articles_table_order ''inflation'' = 0"
    "firstMatch tied_articles_table_order ''growth'' = 0"
    by code_simp+
  have t: "tableIndex ''inflation'' < tableIndex ''growth''"
    by code_simp
  from tie_break_first_seen [OF h] obtain out
    where "extractThemes (JArr tied_articles_table_order) = Inr out"
      and "themeCount tied_articles_table_order ''inflation'' = 3 \<and>
           themeCount tied_articles_table_order ''growth'' = 3 \<and>
           themeCount tied_articles_table_order ''markets'' = 1 \<and>
           themeCount tied_articles_table_order ''monetary_policy'' = 0 \<and>
           themeCount tied_articles_table_order ''employment'' = 0 \<and>
           firstMatch tied_articles_table_order ''inflation''
             \<le> firstMatch tied_articles_table_order ''growth'' \<longrightarrow>
           out = [''inflation'', ''growth'', ''markets'']"
    by blast
  with c f have "extractThemes (JArr tied_articles_table_order)
                   = Inr [''inflation'', ''growth'', ''markets'']"
    by simp
  with c f t show ?thesis by simp
qed

theorem declaration_order_counterexample:
  "themeCount tied_articles ''inflation'' = 3 \<and>
   themeCount tied_articles ''growth'' = 3 \<and>
   themeCount tied_articles ''markets'' = 1 \<and>
   themeCount tied_articles ''monetary_policy'' = 0 \<and>
   themeCount tied_articles ''employment'' = 0 \<and>
   extractThemes (JArr tied_articles) = Inr [''growth'', ''inflation'', ''markets''] \<and>
   extractThemes (JArr tied_articles) \<noteq> Inr [''inflation'', ''growth'', ''markets'']"
proof -
  have "forEachArticle tied_articles [] = Inr [(''growth'', 3), (''inflation'', 3), (''markets'', 1)]"
    by code_simp
  note tc = themeCount_forEach [OF this]
  have e: "extractThemes (JArr tied_articles) = Inr [''growth'', ''inflation'', ''markets'']"
    by code_simp
  show ?thesis
    unfolding e by (simp add: tc countOf_def)
qed

text \<open>
  C3 (as amended). The search text of an article whose title is a string and whose
  description is a string or absent is the lowercased concatenation of the title, one
  space and the description (the empty string when the description is absent). Processing
  the article raises a theme's counter by exactly 1 if some keyword of the theme occurs in
  that text as a substring, however many of its keywords occur, and leaves it unchanged
  otherwise. The claim as stated (title and description concatenated with nothing between
  them) fails: see the counterexample.
\<close>

theorem search_text_and_count:
  assumes "getProp article ''title'' = Inr (JStr t)"
    and "getProp article ''description'' = Inr dv"
    and "dv = JStr d \<or> (nullish dv \<and> d = [])"
    and "str = toLowerCase (t @ '' '' @ d)"
  shows "searchText article = Inr str \<and>
     (\<forall>cs. forEachArticle [article] cs = Inr (countThemes str cs)) \<and>
     (\<forall>cs theme. countOf (countThemes str cs) theme =
        countOf cs theme +
        (if \<exists>keywords kw. (theme, keywords) \<in> set themeKeywords \<and> kw \<in> set keywords \<and>
               (\<exists>ps ss. str = ps @ kw @ ss)
         then 1 else 0))"
proof -
  have s: "searchText article = Inr str"
    using searchText_strings [OF assms(1-3)] assms(4) by simp
  have c: "countOf (countThemes str cs) theme =
        countOf cs theme +
        (if \<exists>keywords kw. (theme, keywords) \<in> set themeKeywords \<and> kw \<in> set keywords \<and>
               (\<exists>ps ss. str = ps @ kw @ ss)
         then 1 else 0)" for cs theme
    unfolding themeMatches_iff [symmetric] by (rule countOf_countThemes)
  from s c show ?thesis by simp
qed

theorem search_text_and_count_witness:
  "searchText fed_article = Inr ''fed holds interest rates steady powell signals caution'' \<and>
   forEachArticle [fed_article] [] = Inr [(''monetary_policy'', 1)] \<and>
   countOf (countThemes ''fed holds interest rates steady powell signals caution'' [])
     ''monetary_policy'' = 1"
proof -
  have 1: "getProp fed_article ''title'' = Inr (JStr ''Fed holds interest rates steady'')"
    by code_simp
  have 2: "getProp fed_article ''description'' = Inr (JStr ''Powell signals caution'')"
    by code_simp
  have 3: "JStr ''Powell signals caution'' = JStr ''Powell signals caution'' \<or>
           (nullish (JStr ''Powell signals caution'') \<and> ''Powell signals caution'' = [])"
    by simp
  have 4: "''fed holds interest rates steady powell signals caution''
             = toLowerCase (''Fed holds interest rates steady'' @ '' '' @ ''Powell signals caution'')"
    by code_simp
  have 5: "countThemes ''fed holds interest rates steady powell signals caution'' []
             = [(''monetary_policy'', 1)]"
    by code_simp
  from search_text_and_count [OF 1 2 3 4]
  have "searchText fed_article = Inr ''fed holds interest rates steady powell signals caution''"
    and "forEachArticle [fed_article] []
           = Inr (countThemes ''fed holds interest rates steady powell signals caution'' [])"
    by blast+
  then show ?thesis
    unfolding 5 by (simp add: countOf_def)
qed

theorem plain_concatenation_counterexample:
  "searchText split_article = Inr ''rising interest rates hit borrowers'' \<and>
   toLowerCase (''Rising interest'' @ ''rates hit borrowers'')
     = ''rising interestrates hit borrowers'' \<and>
   \<not> themeMatches ''rising interestrates hit borrowers'' ''monetary_policy'' \<and>
   themeMatches ''rising interest rates hit borrowers'' ''monetary_policy'' \<and>
   extractThemes (JArr [split_article]) = Inr [''monetary_policy'']"
  by code_simp

section \<open>Faults and results of structureNewsData and the try block\<close>

lemma dec_nonempty: "dec n \<noteq> []"
  by (subst dec.simps) simp

lemma dec_eq_0: "dec n = ''0'' \<longleftrightarrow> n = 0"
proof (cases "n < 10")
  case True
  then have "n \<in> {0, 1, 2, 3, 4, 5, 6, 7, 8, 9}" by auto
  then show ?thesis by (auto simp: dec_small)
next
  case False
  then have "dec n = dec (n div 10) @ [''0123456789'' ! (n mod 10)]"
    by (subst dec.simps) simp
  with dec_nonempty [of "n div 10"] False show ?thesis
    by (cases "dec (n div 10)") auto
qed

lemma getProp_Inl: "getProp v p = Inl e \<Longrightarrow> nullish v \<and> (\<exists>m. e = TypeError m)"
  by (cases v) (auto simp: nullish_def)

lemma getProp_Inr: "\<not> nullish v \<Longrightarrow> \<exists>x. getProp v p = Inr x"
  by (cases v) (auto simp: nullish_def)

lemma join_results_Inl:
  "join_results rs = Inl e \<Longrightarrow> Inl e \<in> set rs"
  by (induction rs rule: join_results.induct) (auto split: sum.splits)

lemma toStr_Inl: "toStr v = Inl e \<Longrightarrow> \<exists>m. e = TypeError m"
proof (induction v arbitrary: e rule: toStr.induct)
  case (6 xs)
  from join_results_Inl [OF "6.prems" [simplified]]
  obtain x where "x \<in> set xs" "x \<noteq> JUndefined \<and> x \<noteq> JNull" "toStr x = Inl e"
    by (auto split: if_splits)
  then show ?case using "6.IH" by blast
qed (auto split: if_splits)

lemma searchText_Inl: "searchText a = Inl e \<Longrightarrow> \<exists>m. e = TypeError m"
  unfolding searchText_def
  by (auto split: sum.splits dest: getProp_Inl toStr_Inl)

lemma extractThemes_Inl: "extractThemes v = Inl e \<Longrightarrow> \<exists>m. e = TypeError m"
  by (cases v) (auto split: sum.splits dest!: forEachArticle_Inl dest: searchText_Inl simp: nullish_def)

lemma toHeadline_Inl: "toHeadline a = Inl e \<Longrightarrow> \<exists>m. e = TypeError m"
  unfolding toHeadline_def by (auto split: sum.splits dest: getProp_Inl)

lemma toHeadline_Inr_iff: "(\<exists>h. toHeadline a = Inr h) \<longleftrightarrow> hasSource a"
  unfolding toHeadline_def hasSource_def
  by (cases a) (auto split: sum.splits simp: nullish_def dest: getProp_Inl getProp_Inr)

lemma toHeadline_headlineOf:
  assumes "hasSource a"
  shows "toHeadline a = Inr (headlineOf a)"
proof -
  from assms obtain src where src: "getProp a ''source'' = Inr src" "\<not> nullish src"
    by (auto simp: hasSource_def split: sum.splits)
  then have "\<not> nullish a"
    by (cases a) (auto simp: nullish_def)
  from getProp_Inr [OF this] obtain t p u
    where "getProp a ''title'' = Inr t" "getProp a ''publishedAt'' = Inr p"
      "getProp a ''url'' = Inr u"
    by metis
  moreover from getProp_Inr [OF src(2)] obtain n where "getProp src ''name'' = Inr n"
    by metis
  ultimately show ?thesis
    using src by (simp add: toHeadline_def headlineOf_def propOf_def)
qed

lemma mapHeadlines_Inl: "mapHeadlines as = Inl e \<Longrightarrow> \<exists>a \<in> set as. toHeadline a = Inl e"
  by (induction as arbitrary: e) (auto split: sum.splits)

lemma mapHeadlines_map:
  "\<forall>a \<in> set as. hasSource a \<Longrightarrow> mapHeadlines as = Inr (map headlineOf as)"
  by (induction as) (auto simp: toHeadline_headlineOf)

lemma mapHeadlines_Inr: "mapHeadlines as = Inr hs \<Longrightarrow> \<forall>a \<in> set as. hasSource a"
proof (induction as arbitrary: hs)
  case Nil
  show ?case by simp
next
  case (Cons a as)
  from Cons.prems obtain h hs' where "toHeadline a = Inr h" "mapHeadlines as = Inr hs'"
    by (auto split: sum.splits)
  with Cons.IH toHeadline_Inr_iff [of a] show ?case by auto
qed

lemma slice_0_10_Inl: "slice_0_10 v = Inl e \<Longrightarrow> \<exists>m. e = TypeError m"
  by (cases v) (auto split: sum.splits)

lemma structureNewsData_array:
  assumes "getProp rawData ''articles'' = Inr (JArr xs)" and "xs \<noteq> []"
  shows "structureNewsData now rawData =
     (case extractThemes (JArr (take 10 xs)) of Inl e \<Rightarrow> Inl e
      | Inr ths \<Rightarrow>
     (case mapHeadlines (take 10 xs) of Inl e \<Rightarrow> Inl e
      | Inr hs \<Rightarrow> Inr (Some \<lparr>articleCount = length (take 10 xs), themes = ths,
                              headlines = hs, timestamp = now\<rparr>)))"
  using assms
  by (simp add: structureNewsData_def dec_eq_0 del: extractThemes.simps split: sum.splits)

lemma structureNewsData_Inl:
  assumes "structureNewsData now rawData = Inl e"
  shows "\<exists>m. e = TypeError m"
proof -
  have "\<exists>m. e = TypeError m" if "getProp rawData ''articles'' = Inl e"
    using that by (auto dest: getProp_Inl)
  moreover have "\<exists>m. e = TypeError m"
    if v: "getProp rawData ''articles'' = Inr v"
    and "truthy v" "getProp v ''length'' \<noteq> Inr (JNum ''0'')"
    and r: "(case getProp v ''length'' of Inl e \<Rightarrow> Inl e
             | Inr len \<Rightarrow>
            (case slice_0_10 v of Inl e \<Rightarrow> Inl e
             | Inr articles \<Rightarrow>
            (case extractThemes articles of Inl e \<Rightarrow> Inl e
             | Inr ths \<Rightarrow>
            (case articles of
               JArr as \<Rightarrow>
                 (case mapHeadlines as of Inl e \<Rightarrow> Inl e
                  | Inr recentHeadlines \<Rightarrow>
                      Inr (Some \<lparr>articleCount = length as, themes = ths,
                                 headlines = recentHeadlines, timestamp = now\<rparr>))
             | _ \<Rightarrow> Inl (TypeError ''articles.map is not a function''))))) = Inl e" for v
    using r
    by (auto split: sum.splits jsval.splits
             dest: getProp_Inl slice_0_10_Inl extractThemes_Inl toHeadline_Inl
             dest!: mapHeadlines_Inl simp del: extractThemes.simps)
  ultimately show ?thesis
    using assms unfolding structureNewsData_def
    by (auto split: sum.splits if_splits simp del: extractThemes.simps)
qed

lemma structureNewsData_Some:
  assumes "structureNewsData now rawData = Inr (Some s)"
  shows "\<exists>xs. getProp rawData ''articles'' = Inr (JArr xs) \<and> xs \<noteq> [] \<and>
           extractThemes (JArr (take 10 xs)) = Inr (themes s) \<and>
           mapHeadlines (take 10 xs) = Inr (headlines s) \<and>
           articleCount s = length (take 10 xs) \<and> timestamp s = now"
proof -
  from assms obtain v where v: "getProp rawData ''articles'' = Inr v" and t: "truthy v"
    and len: "getProp v ''length'' \<noteq> Inr (JNum ''0'')"
    unfolding structureNewsData_def by (auto split: sum.splits if_splits)
  from assms v t obtain w where w: "slice_0_10 v = Inr w" "\<exists>ths. extractThemes w = Inr ths"
    unfolding structureNewsData_def
    by (auto split: sum.splits if_splits simp del: extractThemes.simps)
  from w obtain xs where xs: "v = JArr xs"
    by (cases v) (auto split: sum.splits)
  with len have ne: "xs \<noteq> []" by (auto simp: dec_small)
  from assms show ?thesis
    unfolding structureNewsData_array [OF v [unfolded xs] ne]
    using v xs ne by (auto split: sum.splits)
qed

lemma tryBlock_parsed:
  assumes "getProp env ''NEWSAPI_KEY'' = Inr apiKey" and "truthy apiKey"
    and "toStr apiKey = Inr key" and "fetch (newsRequest key) = Inr resp"
    and "ok resp" and "json resp = Inr rawData"
  shows "tryBlock env fetch now = (structureNewsData now rawData, [Fetch (newsRequest key), Json])"
  using assms by (simp add: tryBlock_def)

lemma tryBlock_Inl:
  assumes "tryBlock env fetch now = (Inl e, log)"
  shows "(\<exists>m. e = TypeError m) \<or> (\<exists>req. fetch req = Inl e) \<or>
         (\<exists>req resp. fetch req = Inr resp \<and> json resp = Inl e)"
  using assms unfolding tryBlock_def Let_def
  by (auto split: sum.splits if_splits dest: getProp_Inl toStr_Inl structureNewsData_Inl)

lemma tryBlock_Some:
  assumes "tryBlock env fetch now = (Inr (Some s), log)"
  shows "\<exists>rawData. structureNewsData now rawData = Inr (Some s)"
  using assms unfolding tryBlock_def Let_def
  by (auto split: sum.splits if_splits)

lemma summary_complete:
  assumes "structureNewsData now rawData = Inr (Some s)"
  shows "0 < articleCount s \<and> articleCount s \<le> 10 \<and> length (headlines s) = articleCount s \<and>
         length (themes s) \<le> 3 \<and> timestamp s = now"
proof -
  from structureNewsData_Some [OF assms] obtain xs
    where xs: "xs \<noteq> []" "extractThemes (JArr (take 10 xs)) = Inr (themes s)"
      "mapHeadlines (take 10 xs) = Inr (headlines s)"
      "articleCount s = length (take 10 xs)" "timestamp s = now"
    by blast
  from xs(2) have "\<forall>a \<in> set (take 10 xs). searchable a"
    using extractThemes_Inr_iff [of "take 10 xs"] by blast
  from extractThemes_ranked [OF this] xs(2) have "themes s = take 3 (ranked (take 10 xs))"
    by (simp del: extractThemes.simps)
  then have "length (themes s) \<le> 3"
    by simp
  moreover from mapHeadlines_map [OF mapHeadlines_Inr [OF xs(3)]] xs(3)
  have "length (headlines s) = length (take 10 xs)"
    by auto
  moreover have "0 < length (take 10 xs)"
    using xs(1) by (cases xs) auto
  ultimately show ?thesis
    using xs(4,5) by simp
qed

lemma structureNewsData_missing:
  assumes "getProp rawData ''articles'' = Inr v" and "\<not> truthy v \<or> v = JArr []"
  shows "structureNewsData now rawData = Inr None"
  using assms by (auto simp: structureNewsData_def dec_small)

lemma structureNewsData_wellformed:
  assumes "getProp rawData ''articles'' = Inr (JArr xs)" and "xs \<noteq> []"
    and "\<forall>a \<in> set (take 10 xs). searchable a \<and> hasSource a"
  shows "structureNewsData now rawData =
           Inr (Some \<lparr>articleCount = length (take 10 xs),
                      themes = take 3 (ranked (take 10 xs)),
                      headlines = map headlineOf (take 10 xs), timestamp = now\<rparr>) \<and>
         extractThemes (JArr (take 10 xs)) = Inr (take 3 (ranked (take 10 xs)))"
proof -
  from assms(3) have "\<forall>a \<in> set (take 10 xs). searchable a" by blast
  from extractThemes_ranked [OF this]
  have t: "extractThemes (JArr (take 10 xs)) = Inr (take 3 (ranked (take 10 xs)))" .
  from assms(3) have "\<forall>a \<in> set (take 10 xs). hasSource a" by blast
  from mapHeadlines_map [OF this]
  have h: "mapHeadlines (take 10 xs) = Inr (map headlineOf (take 10 xs))" .
  have "structureNewsData now rawData =
           Inr (Some \<lparr>articleCount = length (take 10 xs),
                      themes = take 3 (ranked (take 10 xs)),
                      headlines = map headlineOf (take 10 xs), timestamp = now\<rparr>)"
    unfolding structureNewsData_array [OF assms(1,2)] t h by simp
  with t show ?thesis by blast
qed

lemma hasSource_object:
  assumes "getProp article ''source'' = Inr (JObj kvs)"
  shows "hasSource article"
  using assms by (simp add: hasSource_def nullish_def)

text \<open>
  Every fault inside the \<^verbatim>\<open>try\<close> block reaches the \<^verbatim>\<open>catch\<close> clause, and the clause
  completes whenever the value it receives is not \<^verbatim>\<open>undefined\<close> or \<^verbatim>\<open>null\<close>.
\<close>

lemma caught_unless_nullish:
  assumes "\<forall>req. \<not> throwsNullish (fetch req)"
    and "\<forall>req resp. fetch req = Inr resp \<longrightarrow> \<not> throwsNullish (json resp)"
  shows "\<exists>result. fst (fetchNewsSentiment env fetch now) = Inr result \<and>
     (result = None \<or>
      (\<exists>s. result = Some s \<and> 0 < articleCount s \<and> articleCount s \<le> 10 \<and>
           length (headlines s) = articleCount s \<and> length (themes s) \<le> 3 \<and>
           timestamp s = now))"
proof -
  obtain r log where t: "tryBlock env fetch now = (r, log)"
    by (cases "tryBlock env fetch now")
  show ?thesis
  proof (cases r)
    case (Inr result)
    show ?thesis
    proof (cases result)
      case None
      with t Inr show ?thesis by (simp add: fetchNewsSentiment_def)
    next
      case (Some s)
      from tryBlock_Some [OF t [unfolded Inr Some]] obtain rawData
        where "structureNewsData now rawData = Inr (Some s)" by blast
      from summary_complete [OF this] t Inr Some show ?thesis
        by (simp add: fetchNewsSentiment_def)
    qed
  next
    case (Inl e)
    have "\<exists>m. errorMessage e = Inr m"
    proof (cases e)
      case (TypeError m)
      then show ?thesis by simp
    next
      case (Thrown v)
      from tryBlock_Inl [OF t [unfolded Inl]] Thrown
      have "(\<exists>req. fetch req = Inl (Thrown v)) \<or>
            (\<exists>req resp. fetch req = Inr resp \<and> json resp = Inl (Thrown v))"
        by auto
      then have "\<not> nullish v"
      proof
        assume "\<exists>req. fetch req = Inl (Thrown v)"
        then obtain req where "fetch req = Inl (Thrown v)" by blast
        with assms(1) [rule_format, of req] show ?thesis
          by (simp add: throwsNullish_def)
      next
        assume "\<exists>req resp. fetch req = Inr resp \<and> json resp = Inl (Thrown v)"
        then obtain req resp where "fetch req = Inr resp" "json resp = Inl (Thrown v)"
          by blast
        with assms(2) [rule_format, of req resp] show ?thesis
          by (simp add: throwsNullish_def)
      qed
      from getProp_Inr [OF this] Thrown show ?thesis by simp
    qed
    with t Inl show ?thesis
      by (auto simp: fetchNewsSentiment_def)
  qed
qed

section \<open>Properties of structureNewsData and fetchNewsSentiment\<close>


text \<open>
  C6. If reading \<^verbatim>\<open>NEWSAPI_KEY\<close> from the configuration gives nothing (or any falsy value),
  \<^verbatim>\<open>fetchNewsSentiment\<close> emits the warning and returns \<^verbatim>\<open>null\<close>; the warning is the only
  event, so no network call is made, whatever the network would have answered.
\<close>

theorem missing_credential_warns:
  assumes "getProp env ''NEWSAPI_KEY'' = Inr apiKey" and "\<not> truthy apiKey"
  shows "fetchNewsSentiment env fetch now = (Inr None, [Warn ''NEWSAPI_KEY not configured''])"
  using assms by (simp add: fetchNewsSentiment_def tryBlock_def)

theorem missing_credential_warns_witness:
  "getProp empty_env ''NEWSAPI_KEY'' = Inr JUndefined \<and>
   fetchNewsSentiment empty_env (respond (okResponse (newsBody busy_articles))) now0 =
     (Inr None, [Warn ''NEWSAPI_KEY not configured''])"
proof -
  have 1: "getProp empty_env ''NEWSAPI_KEY'' = Inr JUndefined"
    by (simp add: empty_env_def)
  have 2: "\<not> truthy JUndefined" by simp
  from missing_credential_warns [OF 1 2] 1 show ?thesis by simp
qed

text \<open>
  C7. If the response is not \<^verbatim>\<open>ok\<close> (the status is not a success status, for example 500),
  \<^verbatim>\<open>fetchNewsSentiment\<close> emits the warning with the status and returns \<^verbatim>\<open>null\<close>; after the
  network call the warning is the only event, so the body is not parsed and no summary is
  built, whatever the body holds.
\<close>

theorem non_success_status_warns:
  assumes "getProp env ''NEWSAPI_KEY'' = Inr apiKey" and "truthy apiKey"
    and "toStr apiKey = Inr key"
    and "fetch (newsRequest key) = Inr resp" and "\<not> ok resp"
  shows "fetchNewsSentiment env fetch now =
           (Inr None, [Fetch (newsRequest key), Warn (''NewsAPI returned '' @ dec (status resp))])"
  using assms by (simp add: fetchNewsSentiment_def tryBlock_def)

theorem non_success_status_warns_witness:
  "fetchNewsSentiment configured_env (respond server_error_response) now0 =
     (Inr None, [Fetch (newsRequest ''k3y''), Warn ''NewsAPI returned 500''])"
proof -
  have 1: "getProp configured_env ''NEWSAPI_KEY'' = Inr (JStr ''k3y'')"
    by (simp add: configured_env_def)
  have 2: "truthy (JStr ''k3y'')" by simp
  have 3: "toStr (JStr ''k3y'') = Inr ''k3y''" by simp
  have 4: "respond server_error_response (newsRequest ''k3y'') = Inr server_error_response"
    by (simp add: respond_def)
  have 5: "\<not> ok server_error_response"
    by (simp add: server_error_response_def httpResponse_def)
  have 6: "dec (status server_error_response) = ''500''"
    by (simp add: server_error_response_def httpResponse_def dec.simps)
  from non_success_status_warns
         [where fetch = "respond server_error_response" and now = now0, OF 1 2 3 4 5] 6
  show ?thesis by simp
qed

text \<open>
  C8. If the parsed body has no article list (the property is missing, \<^verbatim>\<open>null\<close> or
  otherwise falsy) or an empty one, \<^verbatim>\<open>structureNewsData\<close> returns \<^verbatim>\<open>null\<close>, and so does
  \<^verbatim>\<open>fetchNewsSentiment\<close> when that body is what the response parses to, after the network
  call and the parsing and with no further event. No body at all yields an empty summary:
  a summary that exists counts at least one article and holds as many headlines.
\<close>

theorem empty_articles_absent:
  assumes "getProp rawData ''articles'' = Inr v" and "\<not> truthy v \<or> v = JArr []"
  shows "structureNewsData now rawData = Inr None \<and>
     (\<forall>env fetch apiKey key resp.
        getProp env ''NEWSAPI_KEY'' = Inr apiKey \<and> truthy apiKey \<and> toStr apiKey = Inr key \<and>
        fetch (newsRequest key) = Inr resp \<and> ok resp \<and> json resp = Inr rawData \<longrightarrow>
        fetchNewsSentiment env fetch now = (Inr None, [Fetch (newsRequest key), Json])) \<and>
     (\<forall>body s. structureNewsData now body = Inr (Some s) \<longrightarrow>
        0 < articleCount s \<and> length (headlines s) = articleCount s)"
proof -
  have a: "structureNewsData now rawData = Inr None"
    by (rule structureNewsData_missing [OF assms])
  have b: "fetchNewsSentiment env fetch now = (Inr None, [Fetch (newsRequest key), Json])"
    if "getProp env ''NEWSAPI_KEY'' = Inr apiKey \<and> truthy apiKey \<and> toStr apiKey = Inr key \<and>
        fetch (newsRequest key) = Inr resp \<and> ok resp \<and> json resp = Inr rawData"
    for env fetch apiKey key resp
    using that tryBlock_parsed [of env apiKey key fetch resp rawData now] a
    by (simp add: fetchNewsSentiment_def)
  have c: "0 < articleCount s \<and> length (headlines s) = articleCount s"
    if "structureNewsData now body = Inr (Some s)" for body s
    using summary_complete [OF that] by simp
  from a b c show ?thesis by blast
qed

theorem empty_articles_absent_witness:
  "structureNewsData now0 (newsBody []) = Inr None \<and>
   fetchNewsSentiment configured_env (respond (okResponse (newsBody []))) now0 =
     (Inr None, [Fetch (newsRequest ''k3y''), Json])"
proof -
  have 1: "getProp (newsBody []) ''articles'' = Inr (JArr [])"
    by (simp add: newsBody_def)
  have 2: "\<not> truthy (JArr []) \<or> JArr [] = JArr []" by simp
  have 3: "getProp configured_env ''NEWSAPI_KEY'' = Inr (JStr ''k3y'') \<and> truthy (JStr ''k3y'') \<and>
        toStr (JStr ''k3y'') = Inr ''k3y'' \<and>
        respond (okResponse (newsBody [])) (newsRequest ''k3y'') = Inr (okResponse (newsBody [])) \<and>
        ok (okResponse (newsBody [])) \<and> json (okResponse (newsBody [])) = Inr (newsBody [])"
    by (simp add: configured_env_def respond_def okResponse_def httpResponse_def)
  from empty_articles_absent [OF 1 2, of now0] 3 show ?thesis by blast
qed

text \<open>
  C10. If the response parses to a body whose article list is an array and one of its
  first 10 articles has no source to read \<^verbatim>\<open>name\<close> from (the article's \<^verbatim>\<open>source\<close> is
  missing or \<^verbatim>\<open>null\<close>, or the article itself is), \<^verbatim>\<open>fetchNewsSentiment\<close> neither throws nor
  returns a summary: it returns \<^verbatim>\<open>null\<close>, and the last event is the error-level message of
  the \<^verbatim>\<open>catch\<close> clause with the TypeError's message.
\<close>

theorem missing_source_absorbed:
  assumes "getProp env ''NEWSAPI_KEY'' = Inr apiKey" and "truthy apiKey"
    and "toStr apiKey = Inr key"
    and "fetch (newsRequest key) = Inr resp" and "ok resp" and "json resp = Inr rawData"
    and "getProp rawData ''articles'' = Inr (JArr xs)"
    and "a \<in> set (take 10 xs)" and "\<not> hasSource a"
  shows "\<exists>m. fetchNewsSentiment env fetch now =
           (Inr None, [Fetch (newsRequest key), Json, Error ''NewsAPI fetch failed:'' (JStr m)])"
proof -
  from assms(8) have ne: "xs \<noteq> []" by auto
  have "\<nexists>hs. mapHeadlines (take 10 xs) = Inr hs"
    using mapHeadlines_Inr assms(8,9) by blast
  then obtain e where "structureNewsData now rawData = Inl e"
    unfolding structureNewsData_array [OF assms(7) ne]
    by (cases "extractThemes (JArr (take 10 xs))"; cases "mapHeadlines (take 10 xs)") auto
  moreover from structureNewsData_Inl [OF this] obtain m where "e = TypeError m"
    by blast
  ultimately show ?thesis
    using tryBlock_parsed [where fetch = fetch and now = now, OF assms(1-6)]
    by (simp add: fetchNewsSentiment_def)
qed

theorem missing_source_absorbed_witness:
  "fetchNewsSentiment configured_env
     (respond (okResponse (newsBody [fed_article, sourceless_article]))) now0 =
   (Inr None,
    [Fetch (newsRequest ''k3y''), Json,
     Error ''NewsAPI fetch failed:''
       (JStr (''Cannot read properties of undefined (reading '' @ quoted ''name'' @ '')''))])"
proof -
  let ?body = "newsBody [fed_article, sourceless_article]"
  have 1: "getProp configured_env ''NEWSAPI_KEY'' = Inr (JStr ''k3y'')"
    by (simp add: configured_env_def)
  have 2: "truthy (JStr ''k3y'')" by simp
  have 3: "toStr (JStr ''k3y'') = Inr ''k3y''" by simp
  have 4: "respond (okResponse ?body) (newsRequest ''k3y'') = Inr (okResponse ?body)"
    by (simp add: respond_def)
  have 5: "ok (okResponse ?body)" by (simp add: okResponse_def httpResponse_def)
  have 6: "json (okResponse ?body) = Inr ?body" by (simp add: okResponse_def httpResponse_def)
  have 7: "getProp ?body ''articles'' = Inr (JArr [fed_article, sourceless_article])"
    by (simp add: newsBody_def)
  have 8: "sourceless_article \<in> set (take 10 [fed_article, sourceless_article])" by simp
  have 9: "\<not> hasSource sourceless_article" by code_simp
  from missing_source_absorbed
         [where fetch = "respond (okResponse ?body)" and now = now0, OF 1 2 3 4 5 6 7 8 9]
  obtain m where m: "fetchNewsSentiment configured_env (respond (okResponse ?body)) now0 =
           (Inr None, [Fetch (newsRequest ''k3y''), Json, Error ''NewsAPI fetch failed:'' (JStr m)])"
    by blast
  have "snd (fetchNewsSentiment configured_env (respond (okResponse ?body)) now0) =
          [Fetch (newsRequest ''k3y''), Json,
           Error ''NewsAPI fetch failed:''
             (JStr (''Cannot read properties of undefined (reading '' @ quoted ''name'' @ '')''))]"
    by code_simp
  with m show ?thesis by simp
qed

text \<open>
  C4. For every body whose article list is a non-empty array such that, for each of its
  first 10 articles, the search text can be built and there is a source to read \<^verbatim>\<open>name\<close>
  from, \<^verbatim>\<open>structureNewsData\<close> returns a summary; its \<^verbatim>\<open>articleCount\<close> and the length of its
  \<^verbatim>\<open>headlines\<close> are both \<open>min 10 n\<close> for \<open>n\<close> articles, and the headline at each position
  is the projection (title, \<^verbatim>\<open>source.name\<close>, publishedAt, url) of the article at that
  position of the input.
\<close>

theorem headlines_first_ten:
  assumes "getProp rawData ''articles'' = Inr (JArr xs)" and "xs \<noteq> []"
    and "\<forall>a \<in> set (take 10 xs). searchable a \<and> hasSource a"
  shows "\<exists>s. structureNewsData now rawData = Inr (Some s) \<and>
     articleCount s = min 10 (length xs) \<and>
     length (headlines s) = min 10 (length xs) \<and>
     (\<forall>i < min 10 (length xs).
        headlines s ! i =
          \<lparr>title = propOf (xs ! i) ''title'',
           source = propOf (propOf (xs ! i) ''source'') ''name'',
           publishedAt = propOf (xs ! i) ''publishedAt'',
           url = propOf (xs ! i) ''url''\<rparr>) \<and>
     extractThemes (JArr (take 10 xs)) = Inr (themes s) \<and> timestamp s = now"
proof -
  let ?s = "\<lparr>articleCount = length (take 10 xs), themes = take 3 (ranked (take 10 xs)),
             headlines = map headlineOf (take 10 xs), timestamp = now\<rparr>"
  have "structureNewsData now rawData = Inr (Some ?s)"
    and t: "extractThemes (JArr (take 10 xs)) = Inr (take 3 (ranked (take 10 xs)))"
    using structureNewsData_wellformed [OF assms] by blast+
  moreover have "length (take 10 xs) = min 10 (length xs)"
    by (simp add: min.commute)
  moreover have "\<forall>i < min 10 (length xs). map headlineOf (take 10 xs) ! i = headlineOf (xs ! i)"
    by simp
  ultimately show ?thesis
    by (intro exI [of _ ?s]) (simp add: headlineOf_def)
qed

theorem headlines_first_ten_witness:
  "\<exists>s. structureNewsData now0 (newsBody twelve_articles) = Inr (Some s) \<and>
     articleCount s = 10 \<and> length (headlines s) = 10 \<and>
     headlines s ! 9 =
       \<lparr>title = JStr ''Stocks rally as bonds slip'', source = JStr ''Wire'',
        publishedAt = JStr ''2024-01-01T00:00:00Z'', url = JStr ''u1''\<rparr>"
proof -
  have 1: "getProp (newsBody twelve_articles) ''articles'' = Inr (JArr twelve_articles)"
    by (simp add: newsBody_def)
  have 2: "twelve_articles \<noteq> []" by code_simp
  have 3: "\<forall>a \<in> set (take 10 twelve_articles). searchable a \<and> hasSource a" by code_simp
  have 4: "min 10 (length twelve_articles) = 10" by code_simp
  have 5: "\<lparr>title = propOf (twelve_articles ! 9) ''title'',
           source = propOf (propOf (twelve_articles ! 9) ''source'') ''name'',
           publishedAt = propOf (twelve_articles ! 9) ''publishedAt'',
           url = propOf (twelve_articles ! 9) ''url''\<rparr> =
         \<lparr>title = JStr ''Stocks rally as bonds slip'', source = JStr ''Wire'',
          publishedAt = JStr ''2024-01-01T00:00:00Z'', url = JStr ''u1''\<rparr>"
    by code_simp
  from headlines_first_ten [OF 1 2 3, of now0] show ?thesis
    unfolding 4 using 5 by auto
qed

section \<open>Further properties\<close>

text \<open>
  X1. The example of the specification: for the one article titled ``Fed holds interest
  rates steady'' with description ``Powell signals caution'' and source X, the summary
  has the theme monetary_policy, the one headline and article count 1.
\<close>

theorem specification_example:
  "structureNewsData now0 (newsBody [example_article]) =
     Inr (Some \<lparr>articleCount = 1, themes = [''monetary_policy''],
                headlines =
                  [\<lparr>title = JStr ''Fed holds interest rates steady'', source = JStr ''X'',
                    publishedAt = JStr ''2024-01-01T00:00:00Z'', url = JStr ''u1''\<rparr>],
                timestamp = now0\<rparr>)"
  by code_simp

text \<open>
  X2. With a credential, a successful response and a body whose first 10 articles are
  well formed, \<^verbatim>\<open>fetchNewsSentiment\<close> returns the summary \<^verbatim>\<open>structureNewsData\<close> builds from
  the body; it calls the network once, with the fixed query, language \<^verbatim>\<open>en\<close>, sort order
  \<^verbatim>\<open>publishedAt\<close>, page size 20 and the credential, parses the body, and logs nothing.
\<close>

theorem summary_returned:
  assumes "getProp env ''NEWSAPI_KEY'' = Inr apiKey" and "truthy apiKey"
    and "toStr apiKey = Inr key"
    and "fetch (newsRequest key) = Inr resp" and "ok resp" and "json resp = Inr rawData"
    and "getProp rawData ''articles'' = Inr (JArr xs)" and "xs \<noteq> []"
    and "\<forall>a \<in> set (take 10 xs). searchable a \<and> hasSource a"
  shows "\<exists>s. structureNewsData now rawData = Inr (Some s) \<and>
     fetchNewsSentiment env fetch now =
       (Inr (Some s),
        [Fetch \<lparr>endpoint = ''https://newsapi.org/v2/everything'',
                params = [(''q'', ''economy OR federal reserve OR inflation OR GDP OR markets''),
                          (''language'', ''en''), (''sortBy'', ''publishedAt''),
                          (''pageSize'', ''20''), (''apiKey'', key)]\<rparr>,
         Json])"
  using structureNewsData_wellformed [OF assms(7-9), of now]
    tryBlock_parsed [where fetch = fetch and now = now, OF assms(1-6)]
  by (simp add: fetchNewsSentiment_def newsRequest_def)

theorem summary_returned_witness:
  "fetchNewsSentiment configured_env (respond (okResponse (newsBody [example_article]))) now0 =
     (Inr (Some \<lparr>articleCount = 1, themes = [''monetary_policy''],
                 headlines =
                   [\<lparr>title = JStr ''Fed holds interest rates steady'', source = JStr ''X'',
                     publishedAt = JStr ''2024-01-01T00:00:00Z'', url = JStr ''u1''\<rparr>],
                 timestamp = now0\<rparr>),
      [Fetch \<lparr>endpoint = ''https://newsapi.org/v2/everything'',
              params = [(''q'', ''economy OR federal reserve OR inflation OR GDP OR markets''),
                        (''language'', ''en''), (''sortBy'', ''publishedAt''),
                        (''pageSize'', ''20''), (''apiKey'', ''k3y'')]\<rparr>,
       Json])"
proof -
  let ?body = "newsBody [example_article]"
  have 1: "getProp configured_env ''NEWSAPI_KEY'' = Inr (JStr ''k3y'')"
    by (simp add: configured_env_def)
  have 2: "truthy (JStr ''k3y'')" by simp
  have 3: "toStr (JStr ''k3y'') = Inr ''k3y''" by simp
  have 4: "respond (okResponse ?body) (newsRequest ''k3y'') = Inr (okResponse ?body)"
    by (simp add: respond_def)
  have 5: "ok (okResponse ?body)" by (simp add: okResponse_def httpResponse_def)
  have 6: "json (okResponse ?body) = Inr ?body" by (simp add: okResponse_def httpResponse_def)
  have 7: "getProp ?body ''articles'' = Inr (JArr [example_article])"
    by (simp add: newsBody_def)
  have 8: "[example_article] \<noteq> []" by simp
  have 9: "\<forall>a \<in> set (take 10 [example_article]). searchable a \<and> hasSource a" by code_simp
  have e: "structureNewsData now0 ?body =
     Inr (Some \<lparr>articleCount = 1, themes = [''monetary_policy''],
                headlines =
                  [\<lparr>title = JStr ''Fed holds interest rates steady'', source = JStr ''X'',
                    publishedAt = JStr ''2024-01-01T00:00:00Z'', url = JStr ''u1''\<rparr>],
                timestamp = now0\<rparr>)"
    by code_simp
  from summary_returned
         [where fetch = "respond (okResponse ?body)" and now = now0, OF 1 2 3 4 5 6 7 8 9]
  show ?thesis unfolding e by auto
qed

end
